theory Spec2Isabelle
  imports Main "HOL-Library.Sublist"
begin

section \<open>layer.Container (src/models/container.js)\<close>

text \<open>
  A shallow embedding of the class \<open>Container\<close>. The entity is a record of its
  fields; every call the methods make to a collaborator that is not part of the file
  (the client, the base classes \<open>Syncable\<close> and \<open>Root\<close>, \<open>Util\<close>) is appended,
  in call order, to a trace of effects. Callbacks that the transport invokes later
  (\<open>_createResult\<close>, the two PATCH callbacks) are functions of their own, applied to
  the state the entity has when the result arrives. The methods modelled are
  \<open>send\<close>, \<open>_populateFromServer\<close>, \<open>_createResult\<close>, \<open>_createSuccess\<close>,
  \<open>setMetadataProperties\<close>, \<open>deleteMetadataProperties\<close>,
  \<open>_handleWebsocketDelete\<close>, \<open>_triggerAsync\<close>, \<open>trigger\<close>,
  \<open>__updateMetadata\<close>, \<open>_handlePatchEvent\<close> and \<open>toObject\<close>.
\<close>

subsection \<open>JavaScript strings\<close>

text \<open>
  \<open>String.prototype.indexOf(search)\<close>: the least index at which \<open>search\<close> occurs,
  \<open>-1\<close> when it does not occur. The empty search string occurs at index 0.
\<close>

fun indexOf_from :: "string \<Rightarrow> string \<Rightarrow> nat \<Rightarrow> int" where
  "indexOf_from [] t i = (if t = [] then int i else - 1)"
| "indexOf_from (c # s) t i =
     (if prefix t (c # s) then int i else indexOf_from s t (Suc i))"

definition indexOf :: "string \<Rightarrow> string \<Rightarrow> int" where
  "indexOf s t = indexOf_from s t 0"

subsection \<open>Patch operations\<close>

text \<open>
  The object literal \<open>{operation, property, value}\<close> pushed onto
  \<open>layerPatchOperations\<close>; a delete operation has no \<open>value\<close> key.
\<close>

record 'v patch_op =
  operation :: string
  property :: string
  opvalue :: "'v option"

text \<open>
  The \<open>forEach\<close> body of \<open>setMetadataProperties\<close> (lines 224-236): one step for
  one key of \<open>props\<close>, pushing onto the operations collected so far. A key that is
  the empty string is falsy and pushes nothing.
\<close>

definition set_step :: "'v patch_op list \<Rightarrow> string \<times> 'v \<Rightarrow> 'v patch_op list" where
  "set_step ops kv =
     (let name = fst kv;
          fullName = (if name \<noteq> ''metadata'' \<and> indexOf name ''metadata.'' \<noteq> 0
                      then ''metadata.'' @ name else name)
      in if name \<noteq> ''''
         then ops @ [\<lparr>operation = ''set'', property = fullName, opvalue = Some (snd kv)\<rparr>]
         else ops)"

text \<open>
  \<open>props\<close> is given as the list of its entries in the order of \<open>Object.keys(props)\<close>.
\<close>

definition set_operations :: "(string \<times> 'v) list \<Rightarrow> 'v patch_op list" where
  "set_operations props = foldl set_step [] props"

text \<open>The \<open>forEach\<close> body of \<open>deleteMetadataProperties\<close> (lines 291-299).\<close>

definition delete_step :: "'v patch_op list \<Rightarrow> string \<Rightarrow> 'v patch_op list" where
  "delete_step ops p =
     (let property = (if p \<noteq> ''metadata'' \<and> indexOf p ''metadata.'' \<noteq> 0
                      then ''metadata.'' @ p else p)
      in ops @ [\<lparr>operation = ''delete'', property = property, opvalue = None\<rparr>])"

definition delete_operations :: "string list \<Rightarrow> 'v patch_op list" where
  "delete_operations props = foldl delete_step [] props"

text \<open>
  The prefixing rule in the words of the specification (4.1): a path that is not
  \<open>"metadata"\<close> and does not begin with \<open>"metadata."\<close> gets the prefix
  \<open>"metadata."\<close>; any other path is left as it is.
\<close>

definition spec_prefixed :: "string \<Rightarrow> string" where
  "spec_prefixed p =
     (if p \<noteq> ''metadata'' \<and> \<not> prefix ''metadata.'' p then ''metadata.'' @ p else p)"

subsection \<open>The entity, the results it receives and the effects it causes\<close>

text \<open>
  Modelled from the spec: the constants of \<open>Constants.SYNC_STATE\<close> (const.js is not
  under src/); section 3 names the states \<open>NEW\<close>, \<open>SYNCING\<close>, \<open>SYNCED\<close> and
  \<open>SAVING_PATCH\<close>.
\<close>

datatype sync_state = NEW | SYNCING | SYNCED | SAVING_PATCH

text \<open>
  The fields of a Container that the methods of the file read or write. \<open>cid\<close> is
  \<open>this.id\<close> (\<open>id\<close> is the identity function of HOL). A \<open>Date\<close> is its time
  value in milliseconds; \<open>null\<close> and \<open>undefined\<close> are \<open>None\<close>. The metadata is a
  JavaScript value of any shape, type \<open>'v\<close>. \<open>toObject_cache\<close> is \<open>this._toObject\<close>,
  a reference to a plain object; \<open>eventPrefix\<close> is \<open>this.constructor.eventPrefix\<close>,
  which the concrete subclasses set.
\<close>

record 'v container =
  cid :: string
  url :: "string option"
  createdAt :: "int option"
  metadata :: 'v
  syncState :: sync_state
  isDestroyed :: bool
  inLayerParser :: bool
  toObject_cache :: "nat option"
  eventPrefix :: string

text \<open>
  The \<open>data\<close> of a transport result. On success it is the server's description of
  the container; on failure it is an error object, of which the code reads \<open>id\<close> only.
\<close>

record 'v server_data =
  data_id :: string
  data_url :: string
  data_created_at :: int
  data_metadata :: 'v

record 'v result =
  success :: bool
  data :: "'v server_data"

text \<open>The \<open>data\<close> of a server-pushed delete event.\<close>

record delete_data =
  mode :: string
  from_position :: "int option"

text \<open>The argument objects of the events the file triggers.\<close>

datatype 'v event_args =
    StateChangeStarted string string string
      \<comment> \<open>\<open>{started: true, type, telemetryId, id}\<close>\<close>
  | StateChangeEnded string string string
      \<comment> \<open>\<open>{ended: true, type, telemetryId, id}\<close>\<close>
  | IdChange string string
      \<comment> \<open>\<open>{oldValue, newValue, property: 'id'}\<close>\<close>
  | MetadataChange 'v 'v "string list option"
      \<comment> \<open>\<open>{property: 'metadata', newValue, oldValue, paths}\<close>\<close>
  | Sent string
      \<comment> \<open>\<open>{result}\<close>\<close>
  | SentError "'v server_data"
      \<comment> \<open>\<open>{error: data}\<close>\<close>

text \<open>
  The calls that leave the file, in the order in which the code makes them.
  \<open>ClientTriggerAsync\<close> is \<open>this.getClient()._triggerAsync\<close>; \<open>RootTriggerAsync\<close>
  and \<open>RootTrigger\<close> are \<open>super._triggerAsync\<close> (deferred dispatch) and
  \<open>super.trigger\<close> (synchronous dispatch) on the entity itself.
\<close>

datatype 'v effect =
    ClientTriggerAsync string "'v event_args"
  | RootTriggerAsync string "'v event_args"
  | RootTrigger string "'v event_args"
  | SendSocketRequest string string string
      \<comment> \<open>method, \<open>sync.depends\<close>, \<open>sync.target\<close>; the body is \<open>{}\<close>\<close>
  | UpdateContainerId string string
      \<comment> \<open>\<open>client._updateContainerId(this, oldId)\<close>: the id \<open>this\<close> has now, the old id\<close>
  | LayerParse "'v patch_op list"
      \<comment> \<open>\<open>Util.layerParse\<close> on this entity with these operations\<close>
  | Xhr string string "'v patch_op list" string
      \<comment> \<open>url, method, the operations whose JSON text is the body, content-type\<close>
  | Load
      \<comment> \<open>\<open>this._load()\<close>\<close>
  | Destroy
      \<comment> \<open>\<open>this.destroy()\<close>\<close>
  | PurgeMessagesByPosition string int
      \<comment> \<open>\<open>client._purgeMessagesByPosition(this.id, from_position)\<close>\<close>
  | SetupMessage nat
      \<comment> \<open>\<open>this._setupMessage(message)\<close>, the message given by reference\<close>
  | CreateResultConflict "'v server_data"
      \<comment> \<open>\<open>this._createResultConflict(data)\<close>, which the subclasses define\<close>

record 'v world =
  self :: "'v container"
  trace :: "'v effect list"

text \<open>
  What the file takes from outside and applies as a function: \<open>Util.typeFromID\<close>,
  the built-in \<open>JSON.stringify\<close>, the result of \<open>Util.layerParse\<close> on the metadata
  (\<open>Inl\<close> is the error it throws), and the constant
  \<open>Constants.DELETION_MODE.MY_DEVICES\<close>.
\<close>

record 'v env =
  typeFromID :: "string \<Rightarrow> string"
  JSON_stringify :: "'v \<Rightarrow> string"
  layerParse :: "'v patch_op list \<Rightarrow> 'v \<Rightarrow> string + 'v"
  MY_DEVICES :: string

datatype js_error = TypeError | Thrown string

definition call :: "'v effect \<Rightarrow> 'v world \<Rightarrow> 'v world" where
  "call e w = w\<lparr>trace := trace w @ [e]\<rparr>"

subsection \<open>Inherited methods\<close>

text \<open>
  Modelled from the spec: \<open>Syncable.isNew\<close>, \<open>_setSyncing\<close> and \<open>_setSynced\<close> are
  not under src/. Section 4.2: \<open>send()\<close> is legal only from \<open>NEW\<close> and transitions
  to \<open>SYNCING\<close>; section 3: reconciliation sets the state to \<open>SYNCED\<close>.
\<close>

definition isNew :: "'v container \<Rightarrow> bool" where
  "isNew c = (syncState c = NEW)"

definition setSyncing :: "'v world \<Rightarrow> 'v world" where
  "setSyncing w = w\<lparr>self := (self w)\<lparr>syncState := SYNCING\<rparr>\<rparr>"

definition setSynced :: "'v world \<Rightarrow> 'v world" where
  "setSynced w = w\<lparr>self := (self w)\<lparr>syncState := SYNCED\<rparr>\<rparr>"

text \<open>
  Modelled from the spec: \<open>Root.destroy\<close> is not under src/. Section 3:
  \<open>isDestroyed\<close> is the terminal flag and destruction is irreversible. The call is
  recorded and the flag is set.
\<close>

definition destroy :: "'v world \<Rightarrow> 'v world" where
  "destroy w = (call Destroy w)\<lparr>self := (self w)\<lparr>isDestroyed := True\<rparr>\<rparr>"

text \<open>
  Modelled from the spec: \<open>Syncable._handleWebsocketDelete\<close> is not under src/.
  Section 4.4: full local teardown, equivalent to destroy.
\<close>

definition super_handleWebsocketDelete :: "'v world \<Rightarrow> 'v world" where
  "super_handleWebsocketDelete w = destroy w"

text \<open>
  Modelled from the spec: \<open>_clearObject\<close> is defined by a base class that is not
  under src/, and the specification does not describe it. It follows the file's own
  documentation of \<open>_toObject\<close> ("Caches last result of toObject()") and of
  \<open>toObject\<close> ("New object is returned any time any of this object's properties
  change"): it drops the cached object.
\<close>

definition clearObject :: "'v world \<Rightarrow> 'v world" where
  "clearObject w = w\<lparr>self := (self w)\<lparr>toObject_cache := None\<rparr>\<rparr>"

text \<open>\<open>this._load()\<close> of \<open>Syncable\<close>: the call is recorded.\<close>

definition load :: "'v world \<Rightarrow> 'v world" where
  "load w = call Load w"

subsection \<open>Methods of Container\<close>

text \<open>\<open>_triggerAsync\<close> and \<open>trigger\<close> (lines 398-406).\<close>

definition triggerAsync :: "string \<Rightarrow> 'v event_args \<Rightarrow> 'v world \<Rightarrow> 'v world" where
  "triggerAsync evtName args w = call (RootTriggerAsync evtName args) (clearObject w)"

definition trigger :: "string \<Rightarrow> 'v event_args \<Rightarrow> 'v world \<Rightarrow> 'v world" where
  "trigger evtName args w = call (RootTrigger evtName args) (clearObject w)"

text \<open>
  \<open>send(message)\<close> (lines 63-87). \<open>now\<close> is the value of \<open>new Date()\<close>;
  \<open>message\<close> is \<open>None\<close> when the argument is absent. The callback handed to
  \<open>sendSocketRequest\<close> is \<open>createResult\<close> below.
\<close>

definition send :: "'v env \<Rightarrow> int \<Rightarrow> nat option \<Rightarrow> 'v world \<Rightarrow> 'v world" where
  "send env now message w =
     (let w4 =
        (if isNew (self w) then
           (let w1 = w\<lparr>self := (self w)\<lparr>createdAt := Some now\<rparr>\<rparr>;
                w2 = setSyncing w1;
                w3 = call (ClientTriggerAsync ''state-change''
                       (StateChangeStarted
                          (''send_'' @ typeFromID env (cid (self w2)))
                          (''send_'' @ typeFromID env (cid (self w2)) @ ''_time'')
                          (cid (self w2)))) w2
            in call (SendSocketRequest ''POST'' (cid (self w3)) (cid (self w3))) w3)
         else w)
      in case message of
           None \<Rightarrow> w4
         | Some m \<Rightarrow> call (SetupMessage m) w4)"

text \<open>\<open>__updateMetadata(newValue, oldValue, paths)\<close> (lines 420-430).\<close>

definition updateMetadata ::
  "'v env \<Rightarrow> 'v \<Rightarrow> 'v \<Rightarrow> string list option \<Rightarrow> 'v world \<Rightarrow> 'v world" where
  "updateMetadata env newValue oldValue paths w =
     (if inLayerParser (self w) then w
      else if JSON_stringify env newValue \<noteq> JSON_stringify env oldValue
      then triggerAsync (eventPrefix (self w) @ '':change'')
             (MetadataChange newValue oldValue paths) w
      else w)"

text \<open>
  \<open>_handlePatchEvent(newValue, oldValue, paths)\<close> (lines 432-436). On an empty
  \<open>paths\<close> the read \<open>paths[0]\<close> is \<open>undefined\<close> and the call of \<open>indexOf\<close> on
  it throws a TypeError.
\<close>

definition handlePatchEvent ::
  "'v env \<Rightarrow> 'v \<Rightarrow> 'v \<Rightarrow> string list \<Rightarrow> 'v world \<Rightarrow> js_error + 'v world" where
  "handlePatchEvent env newValue oldValue paths w =
     (case paths of
        [] \<Rightarrow> Inl TypeError
      | p # _ \<Rightarrow>
          Inr (if indexOf p ''metadata'' = 0
               then updateMetadata env newValue oldValue (Some paths) w
               else w))"

text \<open>
  Modelled from the spec: the assignment \<open>this.metadata = v\<close> goes through the
  property setter of the base class \<open>Root\<close>, which is not under src/. Section 9
  ("any property write triggers a named side-effect hook") and the comment above
  \<open>__updateMetadata\<close> ("Any change in the metadata property will call this method"):
  the value is stored and the hook is called with the new and the old value and no
  paths.
\<close>

definition set_metadata :: "'v env \<Rightarrow> 'v \<Rightarrow> 'v world \<Rightarrow> 'v world" where
  "set_metadata env v w =
     (let initial = metadata (self w);
          w1 = w\<lparr>self := (self w)\<lparr>metadata := v\<rparr>\<rparr>
      in updateMetadata env v initial None w1)"

text \<open>\<open>_populateFromServer(container)\<close> (lines 99-120).\<close>

definition populateFromServer :: "'v env \<Rightarrow> 'v server_data \<Rightarrow> 'v world \<Rightarrow> 'v world" where
  "populateFromServer env container w =
     (let w1 = setSynced w;
          id = cid (self w1);
          w2 = w1\<lparr>self := (self w1)\<lparr>cid := data_id container\<rparr>\<rparr>;
          w3 = (if id \<noteq> cid (self w2)
                then triggerAsync (eventPrefix (self w2) @ '':change'')
                       (IdChange id (cid (self w2)))
                       (call (UpdateContainerId (cid (self w2)) id) w2)
                else w2);
          w4 = w3\<lparr>self := (self w3)\<lparr>url := Some (data_url container)\<rparr>\<rparr>;
          w5 = w4\<lparr>self := (self w4)\<lparr>createdAt := Some (data_created_at container)\<rparr>\<rparr>
      in set_metadata env (data_metadata container) w5)"

text \<open>
  The static strings \<open>Container.CREATED\<close>, \<open>Container.FOUND\<close> and
  \<open>Container.FOUND_WITHOUT_REQUESTED_METADATA\<close> (lines 550-574).
\<close>

definition CREATED :: string where
  "CREATED = ''Created''"

definition FOUND :: string where
  "FOUND = ''Found''"


text \<open>\<open>_createSuccess(data)\<close> (lines 162-168).\<close>

definition createSuccess :: "'v env \<Rightarrow> 'v server_data \<Rightarrow> 'v world \<Rightarrow> 'v world" where
  "createSuccess env d w =
     (let id = cid (self w);
          w1 = populateFromServer env d w
      in triggerAsync (eventPrefix (self w1) @ '':sent'')
           (Sent (if id = cid (self w1) then CREATED else FOUND)) w1)"

text \<open>\<open>_createResult({ success, data })\<close> (lines 136-152).\<close>

definition createResult :: "'v env \<Rightarrow> 'v result \<Rightarrow> 'v world \<Rightarrow> 'v world" where
  "createResult env r w =
     (let w1 = call (ClientTriggerAsync ''state-change''
                 (StateChangeEnded
                    (''send_'' @ typeFromID env (cid (self w)))
                    (''send_'' @ typeFromID env (cid (self w)) @ ''_time'')
                    (cid (self w)))) w
      in if isDestroyed (self w1) then w1
         else if success r then createSuccess env (data r) w1
         else if data_id (data r) = ''conflict'' then call (CreateResultConflict (data r)) w1
         else destroy (trigger (eventPrefix (self w1) @ '':sent-error'')
                         (SentError (data r)) w1))"

text \<open>
  \<open>setMetadataProperties(props)\<close> (lines 222-262) and
  \<open>deleteMetadataProperties(props)\<close> (lines 289-325) run the same statements once
  the operations are built (\<open>apply_and_patch\<close>). When \<open>Util.layerParse\<close> throws,
  the error leaves the method: \<open>_inLayerParser\<close> stays set and no request is made
  (\<open>Inl\<close>, with the state at that point). Otherwise the metadata is what the parser
  made of it, \<open>_inLayerParser\<close> is reset and \<open>_xhr\<close> is called with the PATCH
  request; an error that \<open>_xhr\<close> throws leaves the method too. The callbacks of
  the two requests are \<open>setMetadataProperties_result\<close> and
  \<open>deleteMetadataProperties_result\<close>.
\<close>

definition patch_request :: "'v patch_op list \<Rightarrow> 'v effect" where
  "patch_request ops = Xhr [] ''PATCH'' ops ''application/vnd.layer-patch+json''"

text \<open>
  \<open>this._xhr(options, callback)\<close> is a method of \<open>Syncable\<close>, which is not under
  src/. It refuses a destroyed entity: it throws the error \<open>Object is destroyed\<close>
  and issues no request. On any other entity the request is recorded. (Section 4.2
  of the specification describes an operation on a destroyed entity as silently
  ignored; the base class raises instead.)
\<close>

definition xhr :: "'v effect \<Rightarrow> 'v world \<Rightarrow> (js_error \<times> 'v world) + 'v world" where
  "xhr request w =
     (if isDestroyed (self w) then Inl (Thrown ''Object is destroyed'', w)
      else Inr (call request w))"

definition apply_and_patch ::
  "'v env \<Rightarrow> 'v patch_op list \<Rightarrow> 'v world \<Rightarrow> (js_error \<times> 'v world) + 'v world" where
  "apply_and_patch env layerPatchOperations w =
     (let w1 = w\<lparr>self := (self w)\<lparr>inLayerParser := True\<rparr>\<rparr>;
          w2 = call (LayerParse layerPatchOperations) w1
      in case layerParse env layerPatchOperations (metadata (self w2)) of
           Inl e \<Rightarrow> Inl (Thrown e, w2)
         | Inr m \<Rightarrow>
             (let w3 = w2\<lparr>self := (self w2)\<lparr>metadata := m, inLayerParser := False\<rparr>\<rparr>
              in xhr (patch_request layerPatchOperations) w3))"

definition setMetadataProperties ::
  "'v env \<Rightarrow> (string \<times> 'v) list \<Rightarrow> 'v world \<Rightarrow> (js_error \<times> 'v world) + 'v world" where
  "setMetadataProperties env props w = apply_and_patch env (set_operations props) w"

definition setMetadataProperties_result :: "'v result \<Rightarrow> 'v world \<Rightarrow> 'v world" where
  "setMetadataProperties_result r w =
     (if \<not> success r \<and> \<not> isDestroyed (self w)
         \<and> data_id (data r) \<noteq> ''authentication_required''
      then load w else w)"

definition deleteMetadataProperties ::
  "'v env \<Rightarrow> string list \<Rightarrow> 'v world \<Rightarrow> (js_error \<times> 'v world) + 'v world" where
  "deleteMetadataProperties env props w = apply_and_patch env (delete_operations props) w"

definition deleteMetadataProperties_result :: "'v result \<Rightarrow> 'v world \<Rightarrow> 'v world" where
  "deleteMetadataProperties_result r w =
     (if \<not> success r \<and> data_id (data r) \<noteq> ''authentication_required''
      then load w else w)"

text \<open>
  \<open>_handleWebsocketDelete(data)\<close> (lines 349-355). The condition
  \<open>data.from_position\<close> is the truthiness of a number: \<open>undefined\<close>, \<open>null\<close> and
  \<open>0\<close> are falsy.
\<close>

definition truthy_position :: "int option \<Rightarrow> bool" where
  "truthy_position p = (case p of None \<Rightarrow> False | Some n \<Rightarrow> n \<noteq> 0)"

definition handleWebsocketDelete :: "'v env \<Rightarrow> delete_data \<Rightarrow> 'v world \<Rightarrow> 'v world" where
  "handleWebsocketDelete env d w =
     (if mode d = MY_DEVICES env \<and> truthy_position (from_position d)
      then call (PurgeMessagesByPosition (cid (self w)) (the (from_position d))) w
      else super_handleWebsocketDelete w)"

subsection \<open>Objects by reference: toObject\<close>

text \<open>
  \<open>toObject\<close> returns an object by reference and caches the reference, so its
  model needs object identity. A store is the list of the objects allocated so far;
  the reference of an object is its index, and a new object goes to the end. A value
  is a primitive or a reference; an object is the list of its properties.
\<close>

datatype jsval = JNull | JNum int | JStr string | JRef nat

type_synonym jsobject = "(string \<times> jsval) list"

type_synonym store = "jsobject list"

text \<open>The JSON text of a value, as a tree.\<close>

datatype json = JsonNull | JsonNum int | JsonStr string | JsonObj "(string \<times> json) list"

text \<open>
  \<open>JSON.stringify\<close> on a value in a store: it follows the references. The fuel
  bounds the nesting depth; \<open>None\<close> is the TypeError of a structure that is cyclic
  (or deeper than the fuel) or has a dangling reference.
\<close>

fun read_json :: "nat \<Rightarrow> store \<Rightarrow> jsval \<Rightarrow> json option"
  and read_props :: "nat \<Rightarrow> store \<Rightarrow> jsobject \<Rightarrow> (string \<times> json) list option" where
  "read_json 0 st v = None"
| "read_json (Suc n) st JNull = Some JsonNull"
| "read_json (Suc n) st (JNum i) = Some (JsonNum i)"
| "read_json (Suc n) st (JStr s) = Some (JsonStr s)"
| "read_json (Suc n) st (JRef a) =
     (if a < length st then map_option JsonObj (read_props n st (st ! a)) else None)"
| "read_props n st [] = Some []"
| "read_props n st ((k, v) # ps) =
     (case read_json n st v of
        None \<Rightarrow> None
      | Some j \<Rightarrow>
          (case read_props n st ps of None \<Rightarrow> None | Some js \<Rightarrow> Some ((k, j) # js)))"

text \<open>\<open>JSON.parse\<close>: every object of the text becomes a new object of the store.\<close>

fun alloc_json :: "json \<Rightarrow> store \<Rightarrow> jsval \<times> store"
  and alloc_props :: "(string \<times> json) list \<Rightarrow> store \<Rightarrow> jsobject \<times> store" where
  "alloc_json JsonNull st = (JNull, st)"
| "alloc_json (JsonNum i) st = (JNum i, st)"
| "alloc_json (JsonStr s) st = (JStr s, st)"
| "alloc_json (JsonObj kvs) st =
     (case alloc_props kvs st of (ps, st1) \<Rightarrow> (JRef (length st1), st1 @ [ps]))"
| "alloc_props [] st = ([], st)"
| "alloc_props ((k, j) # kvs) st =
     (case alloc_json j st of (v, st1) \<Rightarrow>
        (case alloc_props kvs st1 of (ps, st2) \<Rightarrow> ((k, v) # ps, st2)))"

text \<open>
  Modelled from the spec: \<open>Util.clone\<close> (client-utils.js) is not under src/, and
  the specification does not describe it. It is modelled as the deep copy that its
  name and its use in \<open>toObject\<close> say: the value is serialised and parsed again,
  \<open>JSON.parse(JSON.stringify(obj))\<close>.
\<close>

definition clone :: "nat \<Rightarrow> store \<Rightarrow> jsval \<Rightarrow> js_error + jsval \<times> store" where
  "clone fuel st v =
     (case read_json fuel st v of
        None \<Rightarrow> Inl TypeError
      | Some t \<Rightarrow> Inr (alloc_json t st))"

text \<open>The assignment \<open>obj[k] = v\<close> on the properties of an object.\<close>

fun assign_property :: "string \<Rightarrow> jsval \<Rightarrow> jsobject \<Rightarrow> jsobject" where
  "assign_property k v [] = [(k, v)]"
| "assign_property k v ((k', v') # ps) =
     (if k' = k then (k, v) # ps else (k', v') # assign_property k v ps)"

text \<open>
  Modelled from the spec: \<open>Root.toObject\<close> (\<open>super.toObject()\<close>) is not under
  src/, and the specification does not describe it. It follows the documentation of
  \<open>toObject\<close> in the file ("Returns a plain object. Object will have all the same
  public properties as this Conversation instance"): a new plain object that holds
  the public properties of the entity, the metadata by reference.
\<close>

definition public_properties :: "jsval container \<Rightarrow> jsobject" where
  "public_properties c =
     [(''id'', JStr (cid c)),
      (''url'', case url c of None \<Rightarrow> JNull | Some u \<Rightarrow> JStr u),
      (''createdAt'', case createdAt c of None \<Rightarrow> JNull | Some d \<Rightarrow> JNum d),
      (''metadata'', metadata c)]"

definition super_toObject :: "jsval container \<Rightarrow> store \<Rightarrow> nat \<times> store" where
  "super_toObject c st = (length st, st @ [public_properties c])"

text \<open>
  \<open>toObject()\<close> (lines 448-454). The result is the reference returned, with the
  entity and the store after the call; \<open>Inl\<close> is the error that leaves the method
  when the clone fails, \<open>_toObject\<close> being assigned already.
\<close>

definition toObject ::
  "nat \<Rightarrow> jsval world \<Rightarrow> store
     \<Rightarrow> (js_error \<times> jsval world \<times> store) + (nat \<times> jsval world \<times> store)" where
  "toObject fuel w st =
     (case toObject_cache (self w) of
        Some a \<Rightarrow> Inr (a, w, st)
      | None \<Rightarrow>
          (case super_toObject (self w) st of (a, st1) \<Rightarrow>
             (let w1 = w\<lparr>self := (self w)\<lparr>toObject_cache := Some a\<rparr>\<rparr>
              in case clone fuel st1 (metadata (self w1)) of
                   Inl e \<Rightarrow> Inl (e, w1, st1)
                 | Inr (m, st2) \<Rightarrow>
                     Inr (a, w1, st2[a := assign_property ''metadata'' m (st2 ! a)]))))"

subsection \<open>Vocabulary of the statements\<close>

text \<open>
  The two \<open>state-change\<close> notifications for the entity id \<open>i\<close>: the object
  literals of \<open>send\<close> (lines 70-75) and of \<open>_createResult\<close> (lines 137-142).
\<close>

definition started_event :: "'v env \<Rightarrow> string \<Rightarrow> 'v effect" where
  "started_event env i =
     ClientTriggerAsync ''state-change''
       (StateChangeStarted
          (''send_'' @ typeFromID env i) (''send_'' @ typeFromID env i @ ''_time'') i)"

definition ended_event :: "'v env \<Rightarrow> string \<Rightarrow> 'v effect" where
  "ended_event env i =
     ClientTriggerAsync ''state-change''
       (StateChangeEnded
          (''send_'' @ typeFromID env i) (''send_'' @ typeFromID env i @ ''_time'') i)"

text \<open>
  The notification that the write \<open>this.metadata = v\<close> on the entity \<open>c\<close> causes
  through \<open>__updateMetadata\<close>, if any.
\<close>

definition metadata_events :: "'v env \<Rightarrow> 'v \<Rightarrow> 'v container \<Rightarrow> 'v effect list" where
  "metadata_events env v c =
     (if \<not> inLayerParser c \<and> JSON_stringify env v \<noteq> JSON_stringify env (metadata c)
      then [RootTriggerAsync (eventPrefix c @ '':change'') (MetadataChange v (metadata c) None)]
      else [])"



text \<open>The first segment of a dotted path: the characters before its first dot.\<close>

definition first_segment :: "string \<Rightarrow> string" where
  "first_segment p = takeWhile (\<lambda>c. c \<noteq> CHR ''.'') p"

text \<open>
  The error with which a method ended, if it raised one, and the state it left
  behind in either case.
\<close>

definition raised :: "(js_error \<times> 'v world) + 'v world \<Rightarrow> js_error option" where
  "raised x = (case x of Inl (e, w) \<Rightarrow> Some e | Inr w \<Rightarrow> None)"

definition state_after :: "(js_error \<times> 'v world) + 'v world \<Rightarrow> 'v world" where
  "state_after x = (case x of Inl (e, w) \<Rightarrow> w | Inr w \<Rightarrow> w)"

text \<open>The entity with \<open>_toObject\<close> set to \<open>x\<close>.\<close>

definition with_cache :: "nat option \<Rightarrow> 'v world \<Rightarrow> 'v world" where
  "with_cache x w = w\<lparr>self := (self w)\<lparr>toObject_cache := x\<rparr>\<rparr>"

text \<open>
  The objects that can be reached from a value: the object it refers to, and the
  objects reached from the properties of that object.
\<close>

inductive reaches :: "store \<Rightarrow> jsval \<Rightarrow> nat \<Rightarrow> bool" for st :: store where
  here: "a < length st \<Longrightarrow> reaches st (JRef a) a"
| through:
    "a < length st \<Longrightarrow> (k, v) \<in> set (st ! a) \<Longrightarrow> reaches st v b \<Longrightarrow> reaches st (JRef a) b"

text \<open>Values and objects whose references all lie in the range from \<open>lo\<close> to \<open>hi\<close>.\<close>

definition fresh_val :: "nat \<Rightarrow> nat \<Rightarrow> jsval \<Rightarrow> bool" where
  "fresh_val lo hi v = (case v of JRef a \<Rightarrow> lo \<le> a \<and> a < hi | _ \<Rightarrow> True)"

definition fresh_obj :: "nat \<Rightarrow> nat \<Rightarrow> jsobject \<Rightarrow> bool" where
  "fresh_obj lo hi ps = list_all (\<lambda>kv. fresh_val lo hi (snd kv)) ps"

subsection \<open>Concrete inputs\<close>

text \<open>
  An environment and an entity for the concrete instances below. Metadata values are
  given by their JSON text, so \<open>JSON.stringify\<close> is the identity; the parser
  accepts every operation list and leaves the metadata as it is.
\<close>

definition example_env :: "string env" where
  "example_env =
     \<lparr>typeFromID = (\<lambda>i. ''conversations''),
      JSON_stringify = (\<lambda>v. v),
      layerParse = (\<lambda>ops m. Inr m),
      MY_DEVICES = ''my_devices''\<rparr>"

definition example_entity :: "string container" where
  "example_entity =
     \<lparr>cid = ''local-1'', url = None, createdAt = Some 5, metadata = ''{}'',
      syncState = NEW, isDestroyed = False, inLayerParser = False,
      toObject_cache = None, eventPrefix = ''conversations''\<rparr>"

definition example_world :: "string world" where
  "example_world = \<lparr>self = example_entity, trace = []\<rparr>"

definition destroyed_world :: "string world" where
  "destroyed_world = \<lparr>self = example_entity\<lparr>isDestroyed := True\<rparr>, trace = []\<rparr>"

definition server_found :: "string server_data" where
  "server_found =
     \<lparr>data_id = ''server-9'', data_url = ''/c/9'', data_created_at = 9,
      data_metadata = ''{a:1}''\<rparr>"

definition server_created :: "string server_data" where
  "server_created = server_found\<lparr>data_id := ''local-1''\<rparr>"

definition server_error :: "string server_data" where
  "server_error =
     \<lparr>data_id = ''service_unavailable'', data_url = [], data_created_at = 0,
      data_metadata = []\<rparr>"

text \<open>
  A store with the metadata \<open>{title: 'hello', colors: {bg: 'red'}}\<close> at reference
  1, and an entity that holds it.
\<close>

definition example_store :: store where
  "example_store =
     [[(''bg'', JStr ''red'')],
      [(''title'', JStr ''hello''), (''colors'', JRef 0)]]"

definition example_json :: json where
  "example_json =
     JsonObj [(''title'', JsonStr ''hello''), (''colors'', JsonObj [(''bg'', JsonStr ''red'')])]"

definition example_object_world :: "jsval world" where
  "example_object_world =
     \<lparr>self =
        \<lparr>cid = ''local-1'', url = None, createdAt = Some 5, metadata = JRef 1,
         syncState = SYNCED, isDestroyed = False, inLayerParser = False,
         toObject_cache = None, eventPrefix = ''conversations''\<rparr>,
      trace = []\<rparr>"

section \<open>Properties\<close>

subsection \<open>indexOf\<close>

lemma indexOf_from_range: "indexOf_from s t i = - 1 \<or> int i \<le> indexOf_from s t i"
proof (induction s arbitrary: i)
  case Nil
  show ?case by simp
next
  case (Cons c s)
  have "indexOf_from s t (Suc i) = - 1 \<or> int (Suc i) \<le> indexOf_from s t (Suc i)"
    by (rule Cons.IH)
  then show ?case by auto
qed

lemma indexOf_from_Suc_nonzero: "indexOf_from s t (Suc i) \<noteq> 0"
  using indexOf_from_range [of s t "Suc i"] by auto

lemma indexOf_zero_iff: "indexOf s t = 0 \<longleftrightarrow> prefix t s"
  by (cases s) (simp_all add: indexOf_def indexOf_from_Suc_nonzero)

subsection \<open>Traces of the methods\<close>



lemma trace_call: "trace (call e w) = trace w @ [e]"
  by (simp add: call_def)

lemma self_call: "self (call e w) = self w"
  by (simp add: call_def)

lemma trace_triggerAsync: "trace (triggerAsync n a w) = trace w @ [RootTriggerAsync n a]"
  by (simp add: triggerAsync_def call_def clearObject_def)

lemma self_triggerAsync: "self (triggerAsync n a w) = (self w)\<lparr>toObject_cache := None\<rparr>"
  by (simp add: triggerAsync_def call_def clearObject_def)

lemma trace_trigger: "trace (trigger n a w) = trace w @ [RootTrigger n a]"
  by (simp add: trigger_def call_def clearObject_def)

lemma trace_destroy: "trace (destroy w) = trace w @ [Destroy]"
  by (simp add: destroy_def call_def)

lemma isDestroyed_destroy: "isDestroyed (self (destroy w))"
  by (simp add: destroy_def call_def)

lemma trace_updateMetadata:
  "trace (updateMetadata env nv ov ps w) =
     trace w @
     (if \<not> inLayerParser (self w) \<and> JSON_stringify env nv \<noteq> JSON_stringify env ov
      then [RootTriggerAsync (eventPrefix (self w) @ '':change'') (MetadataChange nv ov ps)]
      else [])"
  by (simp add: updateMetadata_def trace_triggerAsync)

lemma trace_populateFromServer:
  "trace (populateFromServer env d w) =
     trace w @
     (if cid (self w) \<noteq> data_id d
      then [UpdateContainerId (data_id d) (cid (self w)),
            RootTriggerAsync (eventPrefix (self w) @ '':change'')
              (IdChange (cid (self w)) (data_id d))]
      else []) @
     metadata_events env (data_metadata d) (self w)"
  by (simp add: populateFromServer_def set_metadata_def Let_def trace_updateMetadata
        trace_triggerAsync self_triggerAsync trace_call self_call setSynced_def
        metadata_events_def)

lemma cid_populateFromServer: "cid (self (populateFromServer env d w)) = data_id d"
  by (simp add: populateFromServer_def set_metadata_def Let_def updateMetadata_def
        self_triggerAsync self_call setSynced_def)

lemma eventPrefix_populateFromServer:
  "eventPrefix (self (populateFromServer env d w)) = eventPrefix (self w)"
  by (simp add: populateFromServer_def set_metadata_def Let_def updateMetadata_def
        self_triggerAsync self_call setSynced_def)

lemma trace_createSuccess:
  "trace (createSuccess env d w) =
     trace (populateFromServer env d w) @
     [RootTriggerAsync (eventPrefix (self w) @ '':sent'')
        (Sent (if cid (self w) = data_id d then CREATED else FOUND))]"
  by (simp add: createSuccess_def Let_def trace_triggerAsync cid_populateFromServer
        eventPrefix_populateFromServer)

lemma createResult_cases:
  "createResult env r w =
     (let w1 = call (ended_event env (cid (self w))) w
      in if isDestroyed (self w) then w1
         else if success r then createSuccess env (data r) w1
         else if data_id (data r) = ''conflict'' then call (CreateResultConflict (data r)) w1
         else destroy (trigger (eventPrefix (self w) @ '':sent-error'') (SentError (data r)) w1))"
  by (simp add: createResult_def Let_def ended_event_def self_call)




lemma example_facts:
  "self example_world = example_entity"
  "trace example_world = []"
  "self destroyed_world = example_entity\<lparr>isDestroyed := True\<rparr>"
  "trace destroyed_world = []"
  by (simp_all add: example_world_def destroyed_world_def)

subsection \<open>The outcome tag of a successful create\<close>



subsection \<open>The identity remap precedes the completion notification\<close>

text \<open>
  Claim C2. For every successful create-result in which the id the server returns
  differs from the local id, the call that remaps the identity in the registry
  (\<open>_updateContainerId\<close>) and the change notification for the property \<open>id\<close>
  come before the completion (\<open>sent\<close>) notification that carries the outcome tag:
  \<open>_createSuccess\<close> makes exactly these calls, in this order, with at most the
  metadata change notification between them; \<open>_createResult\<close> on a live entity
  makes them after the \<open>state-change\<close> notification.
\<close>

theorem remap_precedes_sent:
  "data_id d \<noteq> cid (self w) \<longrightarrow>
     trace (createSuccess env d w) =
       trace w @
       [UpdateContainerId (data_id d) (cid (self w)),
        RootTriggerAsync (eventPrefix (self w) @ '':change'')
          (IdChange (cid (self w)) (data_id d))] @
       metadata_events env (data_metadata d) (self w) @
       [RootTriggerAsync (eventPrefix (self w) @ '':sent'') (Sent FOUND)]
     \<and> (success r \<and> \<not> isDestroyed (self w) \<and> data r = d \<longrightarrow>
          trace (createResult env r w) =
            trace w @
            [ended_event env (cid (self w)),
             UpdateContainerId (data_id d) (cid (self w)),
             RootTriggerAsync (eventPrefix (self w) @ '':change'')
               (IdChange (cid (self w)) (data_id d))] @
            metadata_events env (data_metadata d) (self w) @
            [RootTriggerAsync (eventPrefix (self w) @ '':sent'') (Sent FOUND)])"
proof (intro impI conjI)
  assume differ: "data_id d \<noteq> cid (self w)"
  have shape: "trace (createSuccess env d v) =
       trace v @
       [UpdateContainerId (data_id d) (cid (self w)),
        RootTriggerAsync (eventPrefix (self w) @ '':change'')
          (IdChange (cid (self w)) (data_id d))] @
       metadata_events env (data_metadata d) (self w) @
       [RootTriggerAsync (eventPrefix (self w) @ '':sent'') (Sent FOUND)]"
    if "self v = self w" for v
    using differ that by (auto simp add: trace_createSuccess trace_populateFromServer)
  show "trace (createSuccess env d w) =
       trace w @
       [UpdateContainerId (data_id d) (cid (self w)),
        RootTriggerAsync (eventPrefix (self w) @ '':change'')
          (IdChange (cid (self w)) (data_id d))] @
       metadata_events env (data_metadata d) (self w) @
       [RootTriggerAsync (eventPrefix (self w) @ '':sent'') (Sent FOUND)]"
    by (rule shape) simp
  assume live: "success r \<and> \<not> isDestroyed (self w) \<and> data r = d"
  let ?w1 = "call (ended_event env (cid (self w))) w"
  have "createResult env r w = createSuccess env d ?w1"
    using live by (simp add: createResult_cases Let_def)
  then show "trace (createResult env r w) =
            trace w @
            [ended_event env (cid (self w)),
             UpdateContainerId (data_id d) (cid (self w)),
             RootTriggerAsync (eventPrefix (self w) @ '':change'')
               (IdChange (cid (self w)) (data_id d))] @
            metadata_events env (data_metadata d) (self w) @
            [RootTriggerAsync (eventPrefix (self w) @ '':sent'') (Sent FOUND)]"
    by (simp add: shape self_call trace_call)
qed

theorem remap_precedes_sent_witness:
  "trace (createResult example_env \<lparr>success = True, data = server_found\<rparr> example_world) =
     [ended_event example_env ''local-1'',
      UpdateContainerId ''server-9'' ''local-1'',
      RootTriggerAsync ''conversations:change'' (IdChange ''local-1'' ''server-9''),
      RootTriggerAsync ''conversations:change'' (MetadataChange ''{a:1}'' ''{}'' None),
      RootTriggerAsync ''conversations:sent'' (Sent ''Found'')]"
proof -
  have differ: "data_id server_found \<noteq> cid (self example_world)"
    by (simp add: server_found_def example_facts example_entity_def)
  have live: "success \<lparr>success = True, data = server_found\<rparr>
      \<and> \<not> isDestroyed (self example_world)
      \<and> data \<lparr>success = True, data = server_found\<rparr> = server_found"
    by (simp add: example_facts example_entity_def)
  have "trace (createResult example_env \<lparr>success = True, data = server_found\<rparr> example_world) =
      trace example_world @
      [ended_event example_env (cid (self example_world)),
       UpdateContainerId (data_id server_found) (cid (self example_world)),
       RootTriggerAsync (eventPrefix (self example_world) @ '':change'')
         (IdChange (cid (self example_world)) (data_id server_found))] @
      metadata_events example_env (data_metadata server_found) (self example_world) @
      [RootTriggerAsync (eventPrefix (self example_world) @ '':sent'') (Sent FOUND)]"
    using remap_precedes_sent
      [where d = server_found and w = example_world and env = example_env
         and r = "\<lparr>success = True, data = server_found\<rparr>"]
      differ live
    by blast
  then show ?thesis
    by (simp add: example_facts example_entity_def server_found_def metadata_events_def
          example_env_def FOUND_def)
qed


subsection \<open>A failed create\<close>

text \<open>
  Claim C3, as amended. For every create-result with \<open>success = false\<close> and
  \<open>data.id\<close> different from \<open>'conflict'\<close>, processing the result first emits the
  \<open>state-change\<close> ended notification. On an entity that is not already destroyed
  it then emits a \<open>sent-error\<close> notification carrying the error payload and destroys
  the entity, and does nothing else. On an entity that is already destroyed it stops
  after the \<open>state-change\<close> notification: no \<open>sent-error\<close> is emitted. In both
  cases the entity is destroyed afterwards.
\<close>

theorem failed_create_sent_error_then_destroy:
  "\<not> success r \<and> data_id (data r) \<noteq> ''conflict'' \<longrightarrow>
     trace (createResult env r w) =
       trace w @
       ended_event env (cid (self w)) #
       (if isDestroyed (self w) then []
        else [RootTrigger (eventPrefix (self w) @ '':sent-error'') (SentError (data r)),
              Destroy])
     \<and> isDestroyed (self (createResult env r w))"
  by (simp add: createResult_cases Let_def trace_call self_call trace_destroy trace_trigger
        isDestroyed_destroy)

theorem failed_create_sent_error_then_destroy_witness:
  "trace (createResult example_env \<lparr>success = False, data = server_error\<rparr> example_world) =
     [ended_event example_env ''local-1'',
      RootTrigger ''conversations:sent-error'' (SentError server_error),
      Destroy]
   \<and> isDestroyed (self (createResult example_env
        \<lparr>success = False, data = server_error\<rparr> example_world))"
proof -
  have failure: "\<not> success \<lparr>success = False, data = server_error\<rparr>
      \<and> data_id (data \<lparr>success = False, data = server_error\<rparr>) \<noteq> ''conflict''"
    by (simp add: server_error_def)
  have "trace (createResult example_env \<lparr>success = False, data = server_error\<rparr> example_world) =
       trace example_world @
       ended_event example_env (cid (self example_world)) #
       (if isDestroyed (self example_world) then []
        else [RootTrigger (eventPrefix (self example_world) @ '':sent-error'')
                (SentError (data \<lparr>success = False, data = server_error\<rparr>)),
              Destroy])
     \<and> isDestroyed (self (createResult example_env
          \<lparr>success = False, data = server_error\<rparr> example_world))"
    using failed_create_sent_error_then_destroy
      [where r = "\<lparr>success = False, data = server_error\<rparr>" and w = example_world
         and env = example_env]
      failure
    by blast
  then show ?thesis
    by (simp add: example_facts example_entity_def)
qed

text \<open>
  The claim as stated fails on an entity that is already destroyed: the result of a
  failed, non-conflict create is processed and no \<open>sent-error\<close> notification is
  emitted; the only call is the \<open>state-change\<close> notification.
\<close>

theorem failed_create_on_destroyed_counterexample:
  "\<not> success \<lparr>success = False, data = server_error\<rparr>
   \<and> data_id (data \<lparr>success = False, data = server_error\<rparr>) \<noteq> ''conflict''
   \<and> trace (createResult example_env \<lparr>success = False, data = server_error\<rparr> destroyed_world)
       = [ended_event example_env ''local-1'']"
  by (simp add: createResult_cases Let_def trace_call example_facts example_entity_def
        server_error_def)

subsection \<open>The patch requests and their callbacks\<close>

text \<open>
  On an entity that is not destroyed: when the parser accepts the operations, the
  method stores the metadata it returns, resets \<open>_inLayerParser\<close> and issues one
  PATCH request with the operations. When the parser throws, no request is issued
  and \<open>_inLayerParser\<close> stays set. On a destroyed entity the parser is called all
  the same, and then no request is issued: the method ends with an error, the
  parser's or the one of \<open>_xhr\<close>.
\<close>

lemma apply_and_patch_accepted:
  assumes "layerParse env ops (metadata (self w)) = Inr m" and "\<not> isDestroyed (self w)"
  shows "\<exists>w'. apply_and_patch env ops w = Inr w'
     \<and> trace w' = trace w @ [LayerParse ops, patch_request ops]
     \<and> metadata (self w') = m \<and> \<not> inLayerParser (self w')"
  using assms by (simp add: apply_and_patch_def xhr_def Let_def call_def)

lemma apply_and_patch_thrown:
  assumes "layerParse env ops (metadata (self w)) = Inl e"
  shows "\<exists>w'. apply_and_patch env ops w = Inl (Thrown e, w')
     \<and> trace w' = trace w @ [LayerParse ops]
     \<and> metadata (self w') = metadata (self w) \<and> inLayerParser (self w')"
  using assms by (simp add: apply_and_patch_def Let_def call_def)

lemma apply_and_patch_destroyed:
  assumes "isDestroyed (self w)"
  shows "raised (apply_and_patch env ops w) =
       Some (case layerParse env ops (metadata (self w)) of
               Inl e \<Rightarrow> Thrown e
             | Inr m \<Rightarrow> Thrown ''Object is destroyed'')"
    and "trace (state_after (apply_and_patch env ops w)) = trace w @ [LayerParse ops]"
  using assms
  by (simp_all add: apply_and_patch_def xhr_def Let_def call_def raised_def state_after_def
        split: sum.split)

text \<open>
  The two callbacks differ on a destroyed entity: after a failed request that is not
  an authentication error, the callback of \<open>setMetadataProperties\<close> does nothing,
  and the callback of \<open>deleteMetadataProperties\<close> calls \<open>this._load()\<close>.
\<close>

lemma patch_callbacks_on_destroyed:
  assumes "isDestroyed (self w)" and "\<not> success r"
    and "data_id (data r) \<noteq> ''authentication_required''"
  shows "setMetadataProperties_result r w = w"
    and "trace (deleteMetadataProperties_result r w) = trace w @ [Load]"
  using assms
  by (simp_all add: setMetadataProperties_result_def deleteMetadataProperties_result_def
        load_def call_def)

subsection \<open>A destroyed entity\<close>

text \<open>
  Claim C4, as amended. For every entity whose \<open>isDestroyed\<close> flag is true:
  processing a create-result emits the \<open>state-change\<close> ended notification on the
  client and does nothing else (no mutation of the entity, no notification of the
  entity, no request, no destroy); the request-failure callback of
  \<open>setMetadataProperties\<close> does nothing at all (no reload); neither raises an
  error. \<open>setMetadataProperties\<close> and \<open>deleteMetadataProperties\<close> themselves are
  not silent: they hand the operations to the parser and then end with an error, the
  one the parser throws or else \<open>Object is destroyed\<close> from the request call; they
  issue no PATCH request.
\<close>

theorem destroyed_entity_guards:
  "isDestroyed (self w) \<longrightarrow>
     createResult env r w = call (ended_event env (cid (self w))) w
     \<and> self (createResult env r w) = self w
     \<and> trace (createResult env r w) = trace w @ [ended_event env (cid (self w))]
     \<and> setMetadataProperties_result r' w = w
     \<and> raised (setMetadataProperties env props w) =
         Some (case layerParse env (set_operations props) (metadata (self w)) of
                 Inl e \<Rightarrow> Thrown e
               | Inr m \<Rightarrow> Thrown ''Object is destroyed'')
     \<and> trace (state_after (setMetadataProperties env props w)) =
         trace w @ [LayerParse (set_operations props)]
     \<and> raised (deleteMetadataProperties env paths w) =
         Some (case layerParse env (delete_operations paths) (metadata (self w)) of
                 Inl e \<Rightarrow> Thrown e
               | Inr m \<Rightarrow> Thrown ''Object is destroyed'')
     \<and> trace (state_after (deleteMetadataProperties env paths w)) =
         trace w @ [LayerParse (delete_operations paths)]"
proof
  assume gone: "isDestroyed (self w)"
  have result: "createResult env r w = call (ended_event env (cid (self w))) w"
    using gone by (simp add: createResult_cases Let_def)
  then have frame: "self (createResult env r w) = self w"
    and emitted: "trace (createResult env r w) = trace w @ [ended_event env (cid (self w))]"
    by (simp_all add: trace_call self_call)
  have callback: "setMetadataProperties_result r' w = w"
    using gone by (simp add: setMetadataProperties_result_def)
  note set = apply_and_patch_destroyed [OF gone, of env "set_operations props"]
  note del = apply_and_patch_destroyed [OF gone, of env "delete_operations paths"]
  show "createResult env r w = call (ended_event env (cid (self w))) w
     \<and> self (createResult env r w) = self w
     \<and> trace (createResult env r w) = trace w @ [ended_event env (cid (self w))]
     \<and> setMetadataProperties_result r' w = w
     \<and> raised (setMetadataProperties env props w) =
         Some (case layerParse env (set_operations props) (metadata (self w)) of
                 Inl e \<Rightarrow> Thrown e
               | Inr m \<Rightarrow> Thrown ''Object is destroyed'')
     \<and> trace (state_after (setMetadataProperties env props w)) =
         trace w @ [LayerParse (set_operations props)]
     \<and> raised (deleteMetadataProperties env paths w) =
         Some (case layerParse env (delete_operations paths) (metadata (self w)) of
                 Inl e \<Rightarrow> Thrown e
               | Inr m \<Rightarrow> Thrown ''Object is destroyed'')
     \<and> trace (state_after (deleteMetadataProperties env paths w)) =
         trace w @ [LayerParse (delete_operations paths)]"
    using result frame emitted callback set del
    by (simp add: setMetadataProperties_def deleteMetadataProperties_def)
qed

theorem destroyed_entity_guards_witness:
  "trace (createResult example_env \<lparr>success = True, data = server_found\<rparr> destroyed_world) =
     [ended_event example_env ''local-1'']
   \<and> self (createResult example_env \<lparr>success = True, data = server_found\<rparr> destroyed_world) =
       self destroyed_world
   \<and> setMetadataProperties_result \<lparr>success = False, data = server_error\<rparr> destroyed_world =
       destroyed_world
   \<and> raised (setMetadataProperties example_env [(''title'', ''x'')] destroyed_world) =
       Some (Thrown ''Object is destroyed'')
   \<and> trace (state_after (setMetadataProperties example_env [(''title'', ''x'')] destroyed_world)) =
       [LayerParse (set_operations [(''title'', ''x'')])]"
proof -
  have gone: "isDestroyed (self destroyed_world)"
    by (simp add: example_facts)
  have "self (createResult example_env \<lparr>success = True, data = server_found\<rparr> destroyed_world) =
       self destroyed_world
     \<and> trace (createResult example_env \<lparr>success = True, data = server_found\<rparr> destroyed_world) =
       trace destroyed_world @ [ended_event example_env (cid (self destroyed_world))]
     \<and> setMetadataProperties_result \<lparr>success = False, data = server_error\<rparr> destroyed_world =
       destroyed_world
     \<and> raised (setMetadataProperties example_env [(''title'', ''x'')] destroyed_world) =
         Some (case layerParse example_env (set_operations [(''title'', ''x'')])
                      (metadata (self destroyed_world)) of
                 Inl e \<Rightarrow> Thrown e
               | Inr m \<Rightarrow> Thrown ''Object is destroyed'')
     \<and> trace (state_after (setMetadataProperties example_env [(''title'', ''x'')]
          destroyed_world)) =
         trace destroyed_world @ [LayerParse (set_operations [(''title'', ''x'')])]"
    using destroyed_entity_guards
      [where w = destroyed_world and env = example_env
         and r = "\<lparr>success = True, data = server_found\<rparr>"
         and r' = "\<lparr>success = False, data = server_error\<rparr>"
         and props = "[(''title'', ''x'')]"]
      gone
    by blast
  then show ?thesis
    by (simp add: example_facts example_entity_def example_env_def)
qed

text \<open>
  The claim as stated fails: on a destroyed entity the processing of a create-result
  is not silent, it emits the \<open>state-change\<close> notification; and
  \<open>setMetadataProperties\<close> is no silent no-op, it ends with an error.
\<close>

theorem destroyed_entity_not_silent_counterexample:
  "isDestroyed (self destroyed_world)
   \<and> trace destroyed_world = []
   \<and> trace (createResult example_env \<lparr>success = True, data = server_created\<rparr> destroyed_world)
       = [ClientTriggerAsync ''state-change''
            (StateChangeEnded ''send_conversations'' ''send_conversations_time'' ''local-1'')]
   \<and> raised (setMetadataProperties example_env [(''title'', ''x'')] destroyed_world) =
       Some (Thrown ''Object is destroyed'')"
  by (simp add: createResult_cases Let_def trace_call example_facts example_entity_def
        ended_event_def example_env_def setMetadataProperties_def apply_and_patch_def
        xhr_def raised_def call_def destroyed_world_def)

subsection \<open>The property of a patch operation\<close>

lemma set_step_property:
  "set_step ops (name, v) =
     (if name \<noteq> []
      then ops @ [\<lparr>operation = ''set'', property = spec_prefixed name, opvalue = Some v\<rparr>]
      else ops)"
  by (simp add: set_step_def spec_prefixed_def indexOf_zero_iff)

lemma foldl_set_step:
  "map property (foldl set_step acc props) =
     map property acc @ map spec_prefixed (filter (\<lambda>n. n \<noteq> []) (map fst props))"
proof (induction props arbitrary: acc)
  case Nil
  show ?case by simp
next
  case (Cons kv props)
  obtain name v where kv: "kv = (name, v)"
    by (cases kv)
  show ?case
    by (simp add: Cons.IH kv set_step_property)
qed

lemma foldl_delete_step:
  "map property (foldl delete_step acc paths) = map property acc @ map spec_prefixed paths"
  by (induction paths arbitrary: acc)
     (simp_all add: delete_step_def spec_prefixed_def indexOf_zero_iff)

lemma spec_prefixed_idem: "spec_prefixed (spec_prefixed p) = spec_prefixed p"
  by (simp add: spec_prefixed_def)

text \<open>
  Claim C5. For every path given to \<open>setMetadataProperties\<close> or
  \<open>deleteMetadataProperties\<close>, the \<open>property\<close> of the patch operation built for it
  is \<open>'metadata.' + path\<close> when the path is neither \<open>'metadata'\<close> nor begins with
  \<open>'metadata.'\<close>, and is the path itself otherwise (\<open>spec_prefixed\<close>). The
  operations come in the order of the paths; \<open>setMetadataProperties\<close> builds none
  for the empty key. A path that already has the prefix is not prefixed again:
  building from the properties just built returns them unchanged.
\<close>

theorem patch_property_prefixing:
  "map property (set_operations props) =
     map spec_prefixed (filter (\<lambda>n. n \<noteq> []) (map fst props))
   \<and> map property (delete_operations paths :: 'v patch_op list) = map spec_prefixed paths
   \<and> map property
        (delete_operations (map property (delete_operations paths :: 'v patch_op list))
           :: 'v patch_op list)
       = map property (delete_operations paths :: 'v patch_op list)
   \<and> map property
        (set_operations (map (\<lambda>op. (property op, opvalue op)) (set_operations props)))
       = map property (set_operations props)
   \<and> spec_prefixed (spec_prefixed p) = spec_prefixed p"
proof -
  have nonempty: "spec_prefixed n \<noteq> []" for n
    by (auto simp add: spec_prefixed_def)
  have "filter (\<lambda>n. n \<noteq> []) (map spec_prefixed ns) = map spec_prefixed ns" for ns
    by (induction ns) (simp_all add: nonempty)
  then show ?thesis
    by (simp add: set_operations_def delete_operations_def foldl_set_step foldl_delete_step
          spec_prefixed_idem comp_def)
qed

theorem patch_property_prefixing_witness:
  "map property (set_operations
      [(''title'', ''a''), (''metadata.colors'', ''b''), (''metadata'', ''c'')])
     = [''metadata.title'', ''metadata.colors'', ''metadata'']
   \<and> map property (delete_operations [''title'', ''metadata.title''] :: string patch_op list)
     = [''metadata.title'', ''metadata.title'']"
proof -
  have "map property (set_operations
      [(''title'', ''a''), (''metadata.colors'', ''b''), (''metadata'', ''c'')])
     = map spec_prefixed (filter (\<lambda>n. n \<noteq> [])
         (map fst [(''title'', ''a''), (''metadata.colors'', ''b''), (''metadata'', ''c'')]))
   \<and> map property (delete_operations [''title'', ''metadata.title''] :: string patch_op list)
     = map spec_prefixed [''title'', ''metadata.title'']"
    using patch_property_prefixing
      [where props = "[(''title'', ''a''), (''metadata.colors'', ''b''), (''metadata'', ''c'')]"
         and paths = "[''title'', ''metadata.title'']" and 'v = string]
    by blast
  then show ?thesis
    by (simp add: spec_prefixed_def)
qed

subsection \<open>The state-change notifications of a create\<close>

text \<open>
  Claim C6. \<open>send()\<close> on an entity in the \<open>NEW\<close> state emits the \<open>state-change\<close>
  started notification for the id of the entity and issues the create request. When
  the result arrives (\<open>w'\<close>: the entity with the same id, after whatever calls were
  made in between), processing it emits the \<open>state-change\<close> ended notification for
  the same id, type and telemetry id before any other effect, whatever the result
  (success or failure, conflict or not) and whether or not the entity has been
  destroyed meanwhile. So started precedes ended for that id.
\<close>

theorem ended_first_after_started:
  "isNew (self w) \<and> cid (self w') = cid (self w)
     \<and> trace w' = trace (send env now message w) @ between \<longrightarrow>
   (\<exists>rest.
      trace (createResult env r w') =
        trace w @
        [started_event env (cid (self w)),
         SendSocketRequest ''POST'' (cid (self w)) (cid (self w))] @
        (case message of None \<Rightarrow> [] | Some m \<Rightarrow> [SetupMessage m]) @
        between @
        ended_event env (cid (self w)) # rest)"
proof
  assume h: "isNew (self w) \<and> cid (self w') = cid (self w)
     \<and> trace w' = trace (send env now message w) @ between"
  have sent: "trace (send env now message w) =
       trace w @
       [started_event env (cid (self w)),
        SendSocketRequest ''POST'' (cid (self w)) (cid (self w))] @
       (case message of None \<Rightarrow> [] | Some m \<Rightarrow> [SetupMessage m])"
    using h
    by (simp add: send_def Let_def started_event_def trace_call self_call setSyncing_def
          split: option.split)
  have "\<exists>rest. trace (createResult env r w') = trace w' @ ended_event env (cid (self w)) # rest"
    using h
    by (simp add: createResult_cases Let_def trace_call self_call trace_createSuccess
          trace_populateFromServer trace_destroy trace_trigger)
  then obtain rest where
    "trace (createResult env r w') = trace w' @ ended_event env (cid (self w)) # rest"
    by blast
  then have "trace (createResult env r w') =
        trace w @
        [started_event env (cid (self w)),
         SendSocketRequest ''POST'' (cid (self w)) (cid (self w))] @
        (case message of None \<Rightarrow> [] | Some m \<Rightarrow> [SetupMessage m]) @
        between @
        ended_event env (cid (self w)) # rest"
    using h sent by simp
  then show "\<exists>rest.
      trace (createResult env r w') =
        trace w @
        [started_event env (cid (self w)),
         SendSocketRequest ''POST'' (cid (self w)) (cid (self w))] @
        (case message of None \<Rightarrow> [] | Some m \<Rightarrow> [SetupMessage m]) @
        between @
        ended_event env (cid (self w)) # rest"
    by blast
qed

theorem ended_first_after_started_witness:
  "\<exists>rest.
     trace (createResult example_env \<lparr>success = False, data = server_error\<rparr>
              (send example_env 7 None example_world)) =
       [started_event example_env ''local-1'',
        SendSocketRequest ''POST'' ''local-1'' ''local-1'',
        ended_event example_env ''local-1''] @ rest"
proof -
  have h: "isNew (self example_world)
      \<and> cid (self (send example_env 7 None example_world)) = cid (self example_world)
      \<and> trace (send example_env 7 None example_world) =
          trace (send example_env 7 None example_world) @ []"
    by (simp add: send_def Let_def isNew_def self_call setSyncing_def example_facts
          example_entity_def)
  have "\<exists>rest.
      trace (createResult example_env \<lparr>success = False, data = server_error\<rparr>
               (send example_env 7 None example_world)) =
        trace example_world @
        [started_event example_env (cid (self example_world)),
         SendSocketRequest ''POST'' (cid (self example_world)) (cid (self example_world))] @
        (case None of None \<Rightarrow> [] | Some m \<Rightarrow> [SetupMessage m]) @
        [] @
        ended_event example_env (cid (self example_world)) # rest"
    using ended_first_after_started
      [where w = example_world and w' = "send example_env 7 None example_world"
         and env = example_env and now = 7 and message = None and between = "[]"
         and r = "\<lparr>success = False, data = server_error\<rparr>"]
      h
    by blast
  then show ?thesis
    by (simp add: example_facts example_entity_def)
qed


subsection \<open>A server-pushed delete\<close>

text \<open>
  Claim C7, as amended. For every server-pushed delete event: if the deletion mode is
  \<open>MY_DEVICES\<close> and \<open>from_position\<close> is given and is not \<open>0\<close>, the handler asks
  the client to purge the messages by that position and the entity is left as it is,
  not torn down; in every other case (another mode, no position, or the position
  \<open>0\<close>, which JavaScript takes as false) the handler performs the full local
  teardown of the entity.
\<close>

theorem websocket_delete_purge_or_teardown:
  "(mode d = MY_DEVICES env \<and> from_position d = Some p \<and> p \<noteq> 0 \<longrightarrow>
      handleWebsocketDelete env d w = call (PurgeMessagesByPosition (cid (self w)) p) w
      \<and> self (handleWebsocketDelete env d w) = self w
      \<and> trace (handleWebsocketDelete env d w) =
          trace w @ [PurgeMessagesByPosition (cid (self w)) p])
   \<and> (mode d \<noteq> MY_DEVICES env \<or> from_position d = None \<or> from_position d = Some 0 \<longrightarrow>
      handleWebsocketDelete env d w = super_handleWebsocketDelete w
      \<and> isDestroyed (self (handleWebsocketDelete env d w))
      \<and> trace (handleWebsocketDelete env d w) = trace w @ [Destroy])"
  by (auto simp add: handleWebsocketDelete_def truthy_position_def
        super_handleWebsocketDelete_def trace_call self_call trace_destroy
        isDestroyed_destroy
      split: option.splits)

theorem websocket_delete_purge_or_teardown_witness:
  "trace (handleWebsocketDelete example_env
       \<lparr>mode = ''my_devices'', from_position = Some 42\<rparr> example_world)
     = [PurgeMessagesByPosition ''local-1'' 42]
   \<and> \<not> isDestroyed (self (handleWebsocketDelete example_env
       \<lparr>mode = ''my_devices'', from_position = Some 42\<rparr> example_world))
   \<and> trace (handleWebsocketDelete example_env
       \<lparr>mode = ''all_participants'', from_position = None\<rparr> example_world)
     = [Destroy]
   \<and> isDestroyed (self (handleWebsocketDelete example_env
       \<lparr>mode = ''all_participants'', from_position = None\<rparr> example_world))"
proof -
  have purge: "mode \<lparr>mode = ''my_devices'', from_position = Some 42\<rparr> = MY_DEVICES example_env
      \<and> from_position \<lparr>mode = ''my_devices'', from_position = Some 42\<rparr> = Some 42
      \<and> (42 :: int) \<noteq> 0"
    by (simp add: example_env_def)
  have teardown:
    "mode \<lparr>mode = ''all_participants'', from_position = None\<rparr> \<noteq> MY_DEVICES example_env
      \<or> from_position \<lparr>mode = ''all_participants'', from_position = None\<rparr> = None
      \<or> from_position \<lparr>mode = ''all_participants'', from_position = None\<rparr> = Some 0"
    by simp
  have a: "self (handleWebsocketDelete example_env
        \<lparr>mode = ''my_devices'', from_position = Some 42\<rparr> example_world) = self example_world
     \<and> trace (handleWebsocketDelete example_env
        \<lparr>mode = ''my_devices'', from_position = Some 42\<rparr> example_world) =
        trace example_world @ [PurgeMessagesByPosition (cid (self example_world)) 42]"
    using websocket_delete_purge_or_teardown
      [where d = "\<lparr>mode = ''my_devices'', from_position = Some 42\<rparr>" and p = 42
         and env = example_env and w = example_world]
      purge
    by blast
  have b: "isDestroyed (self (handleWebsocketDelete example_env
        \<lparr>mode = ''all_participants'', from_position = None\<rparr> example_world))
     \<and> trace (handleWebsocketDelete example_env
        \<lparr>mode = ''all_participants'', from_position = None\<rparr> example_world) =
        trace example_world @ [Destroy]"
    using websocket_delete_purge_or_teardown
      [where d = "\<lparr>mode = ''all_participants'', from_position = None\<rparr>" and p = 0
         and env = example_env and w = example_world]
      teardown
    by blast
  show ?thesis
    using a b by (simp add: example_facts example_entity_def)
qed

text \<open>
  The claim as stated fails for the position \<open>0\<close>: the mode is \<open>MY_DEVICES\<close> and
  a position is provided, yet the handler tears the entity down and requests no
  purge.
\<close>

theorem websocket_delete_position_zero_counterexample:
  "mode \<lparr>mode = ''my_devices'', from_position = Some 0\<rparr> = MY_DEVICES example_env
   \<and> from_position \<lparr>mode = ''my_devices'', from_position = Some 0\<rparr> = Some 0
   \<and> trace (handleWebsocketDelete example_env
        \<lparr>mode = ''my_devices'', from_position = Some 0\<rparr> example_world) = [Destroy]
   \<and> isDestroyed (self (handleWebsocketDelete example_env
        \<lparr>mode = ''my_devices'', from_position = Some 0\<rparr> example_world))"
  by (simp add: handleWebsocketDelete_def truthy_position_def super_handleWebsocketDelete_def
        trace_destroy isDestroyed_destroy example_facts example_env_def)

subsection \<open>A server-pushed patch\<close>

lemma first_segment_prefix: "first_segment p = ''metadata'' \<Longrightarrow> prefix ''metadata'' p"
  unfolding first_segment_def
  by (metis prefixI takeWhile_dropWhile_id)

text \<open>
  Claim C8, as amended. For every server-pushed patch event with a non-empty list of
  paths, a \<open>metadata\<close> change notification carrying \<open>newValue\<close>, \<open>oldValue\<close> and
  the raw path list is emitted if and only if the first path begins with the string
  \<open>'metadata'\<close> (as every path whose first segment is \<open>'metadata'\<close> does), the
  entity is not inside its own patch application (\<open>_inLayerParser\<close>), and the JSON
  texts of \<open>oldValue\<close> and \<open>newValue\<close> differ; in every other case the handler
  changes nothing and raises no error. On an empty list of paths it raises a
  TypeError.
\<close>

theorem patch_event_metadata_change:
  "handlePatchEvent env newValue oldValue [] w = Inl TypeError
   \<and> handlePatchEvent env newValue oldValue (p # ps) w =
       Inr (if prefix ''metadata'' p \<and> \<not> inLayerParser (self w)
               \<and> JSON_stringify env newValue \<noteq> JSON_stringify env oldValue
            then triggerAsync (eventPrefix (self w) @ '':change'')
                   (MetadataChange newValue oldValue (Some (p # ps))) w
            else w)
   \<and> (first_segment p = ''metadata'' \<longrightarrow> prefix ''metadata'' p)"
  by (simp add: handlePatchEvent_def updateMetadata_def indexOf_zero_iff first_segment_prefix)

theorem patch_event_metadata_change_witness:
  "handlePatchEvent example_env ''1'' ''2'' [''metadata.a.b''] example_world =
     Inr (example_world\<lparr>trace :=
       [RootTriggerAsync ''conversations:change''
          (MetadataChange ''1'' ''2'' (Some [''metadata.a.b'']))]\<rparr>)
   \<and> handlePatchEvent example_env ''1'' ''1'' [''metadata.a.b''] example_world =
       Inr example_world
   \<and> prefix ''metadata'' ''metadata.a.b''"
proof -
  have seg: "first_segment ''metadata.a.b'' = ''metadata''"
    by (simp add: first_segment_def)
  note t = patch_event_metadata_change
    [where env = example_env and p = "''metadata.a.b''" and ps = "[]" and w = example_world]
  have pre: "prefix ''metadata'' ''metadata.a.b''"
    using t [where newValue = "''1''" and oldValue = "''2''"] seg by blast
  have a: "handlePatchEvent example_env ''1'' ''2'' [''metadata.a.b''] example_world =
       Inr (if prefix ''metadata'' ''metadata.a.b'' \<and> \<not> inLayerParser (self example_world)
               \<and> JSON_stringify example_env ''1'' \<noteq> JSON_stringify example_env ''2''
            then triggerAsync (eventPrefix (self example_world) @ '':change'')
                   (MetadataChange ''1'' ''2'' (Some [''metadata.a.b''])) example_world
            else example_world)"
    using t [where newValue = "''1''" and oldValue = "''2''"] by blast
  have b: "handlePatchEvent example_env ''1'' ''1'' [''metadata.a.b''] example_world =
       Inr (if prefix ''metadata'' ''metadata.a.b'' \<and> \<not> inLayerParser (self example_world)
               \<and> JSON_stringify example_env ''1'' \<noteq> JSON_stringify example_env ''1''
            then triggerAsync (eventPrefix (self example_world) @ '':change'')
                   (MetadataChange ''1'' ''1'' (Some [''metadata.a.b''])) example_world
            else example_world)"
    using t [where newValue = "''1''" and oldValue = "''1''"] by blast
  show ?thesis
    unfolding a b using pre
    by (simp add: example_world_def example_entity_def example_env_def triggerAsync_def
          call_def clearObject_def)
qed

text \<open>
  The claim as stated fails for a first path that begins with \<open>'metadata'\<close> and
  whose first segment is another word: the notification is emitted although the
  first path segment is not \<open>'metadata'\<close>.
\<close>

theorem patch_event_first_segment_counterexample:
  "first_segment ''metadata_x'' \<noteq> ''metadata''
   \<and> handlePatchEvent example_env ''1'' ''2'' [''metadata_x''] example_world =
       Inr (example_world\<lparr>trace :=
         [RootTriggerAsync ''conversations:change''
            (MetadataChange ''1'' ''2'' (Some [''metadata_x'']))]\<rparr>)"
  by (simp add: first_segment_def handlePatchEvent_def updateMetadata_def indexOf_def
        example_world_def example_entity_def example_env_def triggerAsync_def call_def
        clearObject_def)

subsection \<open>send and createdAt\<close>

text \<open>
  Claim C9, as amended. For every entity in the \<open>NEW\<close> state, \<open>send()\<close> sets
  \<open>createdAt\<close> to the current time, whether or not it was set before. For every
  entity not in the \<open>NEW\<close> state, \<open>send()\<close> leaves \<open>createdAt\<close> unchanged, issues
  no create request and emits no \<open>state-change\<close> notification: its only call is
  \<open>_setupMessage\<close>, when a message is given.
\<close>

theorem send_createdAt_and_gate:
  "(isNew (self w) \<longrightarrow> createdAt (self (send env now message w)) = Some now)
   \<and> (\<not> isNew (self w) \<longrightarrow>
        createdAt (self (send env now message w)) = createdAt (self w)
        \<and> trace (send env now message w) =
            trace w @ (case message of None \<Rightarrow> [] | Some m \<Rightarrow> [SetupMessage m]))"
  by (simp add: send_def Let_def trace_call self_call setSyncing_def split: option.split)

theorem send_createdAt_and_gate_witness:
  "createdAt (self (send example_env 7 None example_world)) = Some 7
   \<and> createdAt (self (send example_env 7 (Some 3)
        (example_world\<lparr>self := example_entity\<lparr>syncState := SYNCED\<rparr>\<rparr>))) = Some 5
   \<and> trace (send example_env 7 (Some 3)
        (example_world\<lparr>self := example_entity\<lparr>syncState := SYNCED\<rparr>\<rparr>)) = [SetupMessage 3]"
proof -
  have new: "isNew (self example_world)"
    by (simp add: isNew_def example_facts example_entity_def)
  have synced: "\<not> isNew (self (example_world\<lparr>self := example_entity\<lparr>syncState := SYNCED\<rparr>\<rparr>))"
    by (simp add: isNew_def)
  have a: "createdAt (self (send example_env 7 None example_world)) = Some 7"
    using send_createdAt_and_gate
      [where w = example_world and env = example_env and now = 7 and message = None]
      new
    by blast
  have b: "createdAt (self (send example_env 7 (Some 3)
        (example_world\<lparr>self := example_entity\<lparr>syncState := SYNCED\<rparr>\<rparr>))) =
      createdAt (self (example_world\<lparr>self := example_entity\<lparr>syncState := SYNCED\<rparr>\<rparr>))
     \<and> trace (send example_env 7 (Some 3)
        (example_world\<lparr>self := example_entity\<lparr>syncState := SYNCED\<rparr>\<rparr>)) =
      trace (example_world\<lparr>self := example_entity\<lparr>syncState := SYNCED\<rparr>\<rparr>) @
        (case Some 3 of None \<Rightarrow> [] | Some m \<Rightarrow> [SetupMessage m])"
    using send_createdAt_and_gate
      [where w = "example_world\<lparr>self := example_entity\<lparr>syncState := SYNCED\<rparr>\<rparr>"
         and env = example_env and now = 7 and message = "Some 3"]
      synced
    by blast
  show ?thesis
    using a b by (simp add: example_facts example_entity_def)
qed

text \<open>
  The claim as stated fails: the entity is in the \<open>NEW\<close> state with \<open>createdAt\<close>
  set to \<open>5\<close>, and \<open>send()\<close> at time \<open>7\<close> overwrites it.
\<close>

theorem send_overwrites_createdAt_counterexample:
  "isNew (self example_world)
   \<and> createdAt (self example_world) = Some 5
   \<and> createdAt (self (send example_env 7 None example_world)) = Some 7"
  by (simp add: send_def Let_def isNew_def self_call setSyncing_def example_facts
        example_entity_def)


subsection \<open>The cached plain object\<close>

text \<open>
  What \<open>JSON.parse\<close> allocates is new: the store is extended, and the value and
  the new objects refer to new objects only.
\<close>

lemma fresh_val_mono: "fresh_val lo hi v \<Longrightarrow> lo' \<le> lo \<Longrightarrow> hi \<le> hi' \<Longrightarrow> fresh_val lo' hi' v"
  by (cases v) (simp_all add: fresh_val_def)

lemma fresh_obj_mono: "fresh_obj lo hi ps \<Longrightarrow> lo' \<le> lo \<Longrightarrow> hi \<le> hi' \<Longrightarrow> fresh_obj lo' hi' ps"
  by (induction ps) (auto simp add: fresh_obj_def intro: fresh_val_mono)

lemma fresh_objs_mono:
  "list_all (fresh_obj lo hi) ext \<Longrightarrow> lo' \<le> lo \<Longrightarrow> hi \<le> hi' \<Longrightarrow> list_all (fresh_obj lo' hi') ext"
  by (induction ext) (auto intro: fresh_obj_mono)

lemma alloc_fresh:
  "alloc_json t st = (v, st') \<Longrightarrow>
     \<exists>ext. st' = st @ ext \<and> fresh_val (length st) (length st') v
       \<and> list_all (fresh_obj (length st) (length st')) ext"
  "alloc_props kvs st = (ps, st'') \<Longrightarrow>
     \<exists>ext. st'' = st @ ext \<and> fresh_obj (length st) (length st'') ps
       \<and> list_all (fresh_obj (length st) (length st'')) ext"
proof (induction t st and kvs st arbitrary: v st' and ps st'' rule: alloc_json_alloc_props.induct)
  case (1 st)
  then show ?case by (auto simp add: fresh_val_def)
next
  case (2 i st)
  then show ?case by (auto simp add: fresh_val_def)
next
  case (3 s st)
  then show ?case by (auto simp add: fresh_val_def)
next
  case (4 kvs st)
  obtain ps st1 where a: "alloc_props kvs st = (ps, st1)"
    by (cases "alloc_props kvs st")
  from "4.IH" [OF a] obtain ext where ext: "st1 = st @ ext" "fresh_obj (length st) (length st1) ps"
      "list_all (fresh_obj (length st) (length st1)) ext"
    by blast
  from "4.prems" a have v: "v = JRef (length st1)" and st': "st' = st1 @ [ps]"
    by simp_all
  have "st' = st @ (ext @ [ps])"
    using ext st' by simp
  moreover have "fresh_val (length st) (length st') v"
    using v st' ext by (simp add: fresh_val_def)
  moreover have "list_all (fresh_obj (length st) (length st')) (ext @ [ps])"
    using ext st' by (auto intro: fresh_obj_mono fresh_objs_mono)
  ultimately show ?case by blast
next
  case (5 st)
  then show ?case by (auto simp add: fresh_obj_def)
next
  case (6 k j kvs st)
  obtain v st1 where a: "alloc_json j st = (v, st1)"
    by (cases "alloc_json j st")
  obtain qs st2 where b: "alloc_props kvs st1 = (qs, st2)"
    by (cases "alloc_props kvs st1")
  from "6.IH"(1) [OF a] obtain e1 where e1: "st1 = st @ e1" "fresh_val (length st) (length st1) v"
      "list_all (fresh_obj (length st) (length st1)) e1"
    by blast
  from "6.IH"(2) [OF a [symmetric] b] obtain e2 where e2: "st2 = st1 @ e2"
      "fresh_obj (length st1) (length st2) qs"
      "list_all (fresh_obj (length st1) (length st2)) e2"
    by blast
  from "6.prems" a b have ps: "ps = (k, v) # qs" and st'': "st'' = st2"
    by simp_all
  have len: "length st \<le> length st1" "length st1 \<le> length st2"
    using e1 e2 by simp_all
  have "st'' = st @ (e1 @ e2)"
    using e1 e2 st'' by simp
  moreover have "fresh_obj (length st) (length st'') ps"
    using ps st'' e1(2) e2(2) len
    by (auto simp add: fresh_obj_def intro: fresh_val_mono fresh_obj_mono [unfolded fresh_obj_def])
  moreover have "list_all (fresh_obj (length st) (length st'')) (e1 @ e2)"
    using st'' e1(3) e2(3) len by (auto intro: fresh_objs_mono)
  ultimately show ?case by blast
qed


lemma reaches_fresh:
  assumes closed: "\<And>a. lo \<le> a \<Longrightarrow> a < hi \<Longrightarrow> a < length st \<Longrightarrow> fresh_obj lo hi (st ! a)"
  shows "reaches st v b \<Longrightarrow> fresh_val lo hi v \<Longrightarrow> lo \<le> b \<and> b < hi"
proof (induction rule: reaches.induct)
  case (here a)
  then show ?case by (simp add: fresh_val_def)
next
  case (through a k v b)
  from through.prems have "lo \<le> a" "a < hi"
    by (simp_all add: fresh_val_def)
  with closed through.hyps(1) have "fresh_obj lo hi (st ! a)"
    by blast
  with through.hyps(2) have "fresh_val lo hi v"
    by (auto simp add: fresh_obj_def list_all_iff)
  then show ?case by (rule through.IH)
qed

lemma read_agree:
  "read_json f st v = Some t \<Longrightarrow> length st \<le> length st'
     \<Longrightarrow> \<forall>a<length st. st' ! a = st ! a \<Longrightarrow> read_json f st' v = Some t"
  "read_props f st ps = Some js \<Longrightarrow> length st \<le> length st'
     \<Longrightarrow> \<forall>a<length st. st' ! a = st ! a \<Longrightarrow> read_props f st' ps = Some js"
proof (induction f st v and f st ps arbitrary: t and js rule: read_json_read_props.induct)
  case (5 n st a)
  then show ?case
    by (auto split: if_splits)
next
  case (7 n st k v ps)
  then show ?case
    by (auto split: option.splits)
qed simp_all

lemma read_fuel_Suc:
  "read_json f st v = Some t \<Longrightarrow> read_json (Suc f) st v = Some t"
  "read_props f st ps = Some js \<Longrightarrow> read_props (Suc f) st ps = Some js"
proof (induction f st v and f st ps arbitrary: t and js rule: read_json_read_props.induct)
  case (5 n st a)
  then show ?case
    by (auto split: if_splits)
next
  case (7 n st k v ps)
  then show ?case
    by (auto split: option.splits)
qed simp_all

lemma read_fuel_mono:
  "read_json f st v = Some t \<Longrightarrow> f \<le> g \<Longrightarrow> read_json g st v = Some t"
  "read_props f st ps = Some js \<Longrightarrow> f \<le> g \<Longrightarrow> read_props g st ps = Some js"
proof -
  have "read_json f st v = Some t \<Longrightarrow> read_json (f + d) st v = Some t" for d
    by (induction d) (simp_all add: read_fuel_Suc)
  then show "read_json f st v = Some t \<Longrightarrow> f \<le> g \<Longrightarrow> read_json g st v = Some t"
    by (metis le_add_diff_inverse)
  have "read_props f st ps = Some js \<Longrightarrow> read_props (f + d) st ps = Some js" for d
    by (induction d) (simp_all add: read_fuel_Suc)
  then show "read_props f st ps = Some js \<Longrightarrow> f \<le> g \<Longrightarrow> read_props g st ps = Some js"
    by (metis le_add_diff_inverse)
qed

lemma read_append:
  "read_json f st v = Some t \<Longrightarrow> read_json f (st @ ext) v = Some t"
  "read_props f st ps = Some js \<Longrightarrow> read_props f (st @ ext) ps = Some js"
  by (erule read_agree; simp add: nth_append)+

lemma alloc_read_back:
  "alloc_json t st = (v, st') \<Longrightarrow> \<exists>f. read_json f st' v = Some t"
  "alloc_props kvs st = (ps, st'') \<Longrightarrow> \<exists>f. read_props f st'' ps = Some kvs"
proof (induction t st and kvs st arbitrary: v st' and ps st'' rule: alloc_json_alloc_props.induct)
  case (1 st)
  then have "read_json (Suc 0) st' v = Some JsonNull" by auto
  then show ?case ..
next
  case (2 i st)
  then have "read_json (Suc 0) st' v = Some (JsonNum i)" by auto
  then show ?case ..
next
  case (3 s st)
  then have "read_json (Suc 0) st' v = Some (JsonStr s)" by auto
  then show ?case ..
next
  case (4 kvs st)
  obtain ps st1 where a: "alloc_props kvs st = (ps, st1)"
    by (cases "alloc_props kvs st")
  from "4.IH" [OF a] obtain f where f: "read_props f st1 ps = Some kvs"
    by blast
  from "4.prems" a have v: "v = JRef (length st1)" and st': "st' = st1 @ [ps]"
    by simp_all
  have "read_props f (st1 @ [ps]) ps = Some kvs"
    using f by (rule read_append)
  then have "read_json (Suc f) st' v = Some (JsonObj kvs)"
    by (simp add: v st')
  then show ?case ..
next
  case (5 st)
  then have "read_props 0 st'' ps = Some []" by auto
  then show ?case ..
next
  case (6 k j kvs st)
  obtain v st1 where a: "alloc_json j st = (v, st1)"
    by (cases "alloc_json j st")
  obtain qs st2 where b: "alloc_props kvs st1 = (qs, st2)"
    by (cases "alloc_props kvs st1")
  from "6.IH"(1) [OF a] obtain f1 where f1: "read_json f1 st1 v = Some j"
    by blast
  from "6.IH"(2) [OF a [symmetric] b] obtain f2 where f2: "read_props f2 st2 qs = Some kvs"
    by blast
  from alloc_fresh(2) [OF b] obtain ext where ext: "st2 = st1 @ ext"
    by blast
  from "6.prems" a b have ps: "ps = (k, v) # qs" and st'': "st'' = st2"
    by simp_all
  have "read_json f1 st2 v = Some j"
    unfolding ext using f1 by (rule read_append)
  then have r1: "read_json (max f1 f2) st2 v = Some j"
    by (rule read_fuel_mono) simp
  have r2: "read_props (max f1 f2) st2 qs = Some kvs"
    using f2 by (rule read_fuel_mono) simp
  have "read_props (max f1 f2) st'' ps = Some ((k, j) # kvs)"
    by (simp add: ps st'' r1 r2)
  then show ?case ..
qed


lemma read_fresh_agree:
  "fresh_val lo hi v \<Longrightarrow> hi \<le> length st \<Longrightarrow> hi \<le> length st'
     \<Longrightarrow> \<forall>a. lo \<le> a \<and> a < hi \<longrightarrow> st' ! a = st ! a \<and> fresh_obj lo hi (st ! a)
     \<Longrightarrow> read_json f st' v = read_json f st v"
  "fresh_obj lo hi ps \<Longrightarrow> hi \<le> length st \<Longrightarrow> hi \<le> length st'
     \<Longrightarrow> \<forall>a. lo \<le> a \<and> a < hi \<longrightarrow> st' ! a = st ! a \<and> fresh_obj lo hi (st ! a)
     \<Longrightarrow> read_props f st' ps = read_props f st ps"
proof (induction f st v and f st ps rule: read_json_read_props.induct)
  case (1 st v)
  show ?case by simp
next
  case (2 n st)
  show ?case by simp
next
  case (3 n st i)
  show ?case by simp
next
  case (4 n st s)
  show ?case by simp
next
  case (5 n st a)
  from "5.prems"(1) have range: "lo \<le> a" "a < hi"
    by (simp_all add: fresh_val_def)
  with "5.prems" have same: "st' ! a = st ! a" and obj: "fresh_obj lo hi (st ! a)"
    and len: "a < length st" "a < length st'"
    by auto
  have "read_props n st' (st ! a) = read_props n st (st ! a)"
    using len(1) obj "5.prems"(2,3,4) by (rule "5.IH")
  then show ?case
    using len same by simp
next
  case (6 n st)
  show ?case by simp
next
  case (7 n st k v ps)
  from "7.prems"(1) have v: "fresh_val lo hi v" and ps: "fresh_obj lo hi ps"
    by (simp_all add: fresh_obj_def)
  have a: "read_json n st' v = read_json n st v"
    using v "7.prems"(2,3,4) by (rule "7.IH"(1))
  show ?case
  proof (cases "read_json n st v")
    case None
    then show ?thesis using a by simp
  next
    case (Some j)
    have "read_props n st' ps = read_props n st ps"
      using Some ps "7.prems"(2,3,4) by (rule "7.IH"(2))
    then show ?thesis using a Some by simp
  qed
qed

lemma read_json_ref_valid: "read_json f st (JRef b) = Some t \<Longrightarrow> b < length st"
  by (cases f) (auto split: if_splits)

lemma toObject_miss:
  assumes miss: "toObject_cache (self w) = None"
    and tree: "read_json fuel st (metadata (self w)) = Some t"
  shows "\<exists>m st'.
      toObject fuel w st = Inr (length st, with_cache (Some (length st)) w, st')
      \<and> take (length st) st' = st \<and> length st < length st'
      \<and> map_of (st' ! length st) ''metadata'' = Some m
      \<and> (\<exists>f. read_json f st' m = Some t)
      \<and> (\<forall>b. metadata (self w) = JRef b \<longrightarrow> m \<noteq> JRef b)
      \<and> (\<forall>b. reaches st' m b \<longrightarrow> length st < b \<and> b < length st')
      \<and> (\<forall>b ps. length st \<le> b \<longrightarrow> read_json fuel (st'[b := ps]) (metadata (self w)) = Some t)"
proof -
  let ?a = "length st"
  let ?pp = "public_properties (self w)"
  let ?st1 = "st @ [?pp]"
  obtain m st2 where alloc: "alloc_json t ?st1 = (m, st2)"
    by (cases "alloc_json t ?st1")
  let ?st' = "st2[?a := assign_property ''metadata'' m (st2 ! ?a)]"
  from alloc_fresh(1) [OF alloc] obtain ext where ext: "st2 = ?st1 @ ext"
      and m_fresh: "fresh_val (length ?st1) (length st2) m"
      and ext_fresh: "list_all (fresh_obj (length ?st1) (length st2)) ext"
    by blast
  have read1: "read_json fuel ?st1 (metadata (self w)) = Some t"
    using tree by (rule read_append)
  have run: "toObject fuel w st = Inr (?a, with_cache (Some ?a) w, ?st')"
    using miss read1 alloc
    by (simp add: toObject_def super_toObject_def clone_def with_cache_def)
  have old: "take ?a ?st' = st"
    by (simp add: ext)
  have longer: "?a < length ?st'"
    by (simp add: ext)
  have pojo: "map_of (?st' ! ?a) ''metadata'' = Some m"
    by (simp add: ext nth_append public_properties_def)
  have closed: "\<forall>a. length ?st1 \<le> a \<and> a < length st2 \<longrightarrow>
      ?st' ! a = st2 ! a \<and> fresh_obj (length ?st1) (length st2) (st2 ! a)"
  proof (intro allI impI)
    fix a
    assume a: "length ?st1 \<le> a \<and> a < length st2"
    then have "st2 ! a = ext ! (a - length ?st1)" "a - length ?st1 < length ext"
      unfolding ext by (auto simp add: nth_append)
    with ext_fresh have "fresh_obj (length ?st1) (length st2) (st2 ! a)"
      by (simp add: list_all_length)
    moreover have "?st' ! a = st2 ! a"
      using a by simp
    ultimately show "?st' ! a = st2 ! a \<and> fresh_obj (length ?st1) (length st2) (st2 ! a)"
      by simp
  qed
  from alloc_read_back(1) [OF alloc] obtain f where f: "read_json f st2 m = Some t"
    by blast
  have "read_json f ?st' m = read_json f st2 m"
    using m_fresh _ _ closed by (rule read_fresh_agree) simp_all
  then have copy: "\<exists>f. read_json f ?st' m = Some t"
    using f by auto
  have distinct: "\<forall>b. metadata (self w) = JRef b \<longrightarrow> m \<noteq> JRef b"
  proof (intro allI impI)
    fix b
    assume "metadata (self w) = JRef b"
    with tree have "b < ?a"
      by (auto dest: read_json_ref_valid)
    then show "m \<noteq> JRef b"
      using m_fresh by (auto simp add: fresh_val_def)
  qed
  have reach: "\<forall>b. reaches ?st' m b \<longrightarrow> ?a < b \<and> b < length ?st'"
  proof (intro allI impI)
    fix b
    assume r: "reaches ?st' m b"
    have "length ?st1 \<le> b \<and> b < length st2"
    proof (rule reaches_fresh [OF _ r m_fresh])
      fix a
      assume "length ?st1 \<le> a" "a < length st2" "a < length ?st'"
      with closed show "fresh_obj (length ?st1) (length st2) (?st' ! a)"
        by auto
    qed
    then show "?a < b \<and> b < length ?st'"
      by simp
  qed
  have frame: "\<forall>b ps. ?a \<le> b \<longrightarrow> read_json fuel (?st'[b := ps]) (metadata (self w)) = Some t"
  proof (intro allI impI)
    fix b ps
    assume b: "?a \<le> b"
    show "read_json fuel (?st'[b := ps]) (metadata (self w)) = Some t"
      using tree
    proof (rule read_agree(1))
      show "length st \<le> length (?st'[b := ps])"
        by (simp add: ext)
      show "\<forall>a<length st. ?st'[b := ps] ! a = st ! a"
        using b by (simp add: ext nth_append)
    qed
  qed
  show ?thesis
    using run old longer pojo copy distinct reach frame by blast
qed

text \<open>
  Claim C10. Take an entity whose metadata serialises to the JSON text \<open>t\<close>. Two
  calls of \<open>toObject()\<close> with nothing between them return the same reference, and
  the second call changes nothing. Triggering an event on the entity, synchronously
  (\<open>trigger\<close>) or through the deferred queue (\<open>_triggerAsync\<close>), clears the cache
  and leaves the metadata as it is; the next \<open>toObject()\<close> then returns a new
  object (its reference is the one past all objects of the store, whose objects it
  leaves as they are) and caches it. The \<open>metadata\<close> property of the new object is
  a value \<open>m\<close> that reads as the same JSON text \<open>t\<close>, is not the reference of the
  live metadata, and reaches only objects that did not exist before the call;
  whatever is written to an object that did not exist before the call, the metadata
  of the entity still reads as \<open>t\<close>.
\<close>

theorem toObject_cache_and_deep_copy:
  "read_json fuel st (metadata (self w)) = Some t
     \<and> (w' = triggerAsync n args w \<or> w' = trigger n args w) \<longrightarrow>
   (\<exists>a w1 st1. toObject fuel w st = Inr (a, w1, st1)
      \<and> toObject fuel w1 st1 = Inr (a, w1, st1))
   \<and> toObject_cache (self w') = None
   \<and> metadata (self w') = metadata (self w)
   \<and> (\<exists>m st'.
        toObject fuel w' st = Inr (length st, with_cache (Some (length st)) w', st')
        \<and> toObject fuel (with_cache (Some (length st)) w') st' =
            Inr (length st, with_cache (Some (length st)) w', st')
        \<and> take (length st) st' = st \<and> length st < length st'
        \<and> map_of (st' ! length st) ''metadata'' = Some m
        \<and> (\<exists>f. read_json f st' m = Some t)
        \<and> (\<forall>b. metadata (self w') = JRef b \<longrightarrow> m \<noteq> JRef b)
        \<and> (\<forall>b. reaches st' m b \<longrightarrow> length st < b \<and> b < length st')
        \<and> (\<forall>b ps. length st \<le> b \<longrightarrow>
              read_json fuel (st'[b := ps]) (metadata (self w')) = Some t))"
proof
  assume h: "read_json fuel st (metadata (self w)) = Some t
     \<and> (w' = triggerAsync n args w \<or> w' = trigger n args w)"
  then have tree: "read_json fuel st (metadata (self w)) = Some t"
    by simp
  have cleared: "toObject_cache (self w') = None"
    using h by (auto simp add: triggerAsync_def trigger_def clearObject_def call_def)
  have same: "metadata (self w') = metadata (self w)"
    using h by (auto simp add: triggerAsync_def trigger_def clearObject_def call_def)
  have hit: "toObject fuel (with_cache (Some a) v) s = Inr (a, with_cache (Some a) v, s)"
    for a v s
    by (simp add: toObject_def with_cache_def)
  have twice: "\<exists>a w1 st1. toObject fuel w st = Inr (a, w1, st1)
      \<and> toObject fuel w1 st1 = Inr (a, w1, st1)"
  proof (cases "toObject_cache (self w)")
    case None
    from toObject_miss [OF None tree] obtain st' where
      "toObject fuel w st = Inr (length st, with_cache (Some (length st)) w, st')"
      by blast
    with hit show ?thesis
      by blast
  next
    case (Some a)
    then have "toObject fuel w st = Inr (a, w, st)"
      by (simp add: toObject_def)
    then show ?thesis
      by auto
  qed
  have tree': "read_json fuel st (metadata (self w')) = Some t"
    using tree same by simp
  from toObject_miss [OF cleared tree'] hit
  have "\<exists>m st'.
        toObject fuel w' st = Inr (length st, with_cache (Some (length st)) w', st')
        \<and> toObject fuel (with_cache (Some (length st)) w') st' =
            Inr (length st, with_cache (Some (length st)) w', st')
        \<and> take (length st) st' = st \<and> length st < length st'
        \<and> map_of (st' ! length st) ''metadata'' = Some m
        \<and> (\<exists>f. read_json f st' m = Some t)
        \<and> (\<forall>b. metadata (self w') = JRef b \<longrightarrow> m \<noteq> JRef b)
        \<and> (\<forall>b. reaches st' m b \<longrightarrow> length st < b \<and> b < length st')
        \<and> (\<forall>b ps. length st \<le> b \<longrightarrow>
              read_json fuel (st'[b := ps]) (metadata (self w')) = Some t)"
    by blast
  with twice cleared same show
    "(\<exists>a w1 st1. toObject fuel w st = Inr (a, w1, st1)
      \<and> toObject fuel w1 st1 = Inr (a, w1, st1))
   \<and> toObject_cache (self w') = None
   \<and> metadata (self w') = metadata (self w)
   \<and> (\<exists>m st'.
        toObject fuel w' st = Inr (length st, with_cache (Some (length st)) w', st')
        \<and> toObject fuel (with_cache (Some (length st)) w') st' =
            Inr (length st, with_cache (Some (length st)) w', st')
        \<and> take (length st) st' = st \<and> length st < length st'
        \<and> map_of (st' ! length st) ''metadata'' = Some m
        \<and> (\<exists>f. read_json f st' m = Some t)
        \<and> (\<forall>b. metadata (self w') = JRef b \<longrightarrow> m \<noteq> JRef b)
        \<and> (\<forall>b. reaches st' m b \<longrightarrow> length st < b \<and> b < length st')
        \<and> (\<forall>b ps. length st \<le> b \<longrightarrow>
              read_json fuel (st'[b := ps]) (metadata (self w')) = Some t))"
    by blast
qed

theorem toObject_cache_and_deep_copy_witness:
  "\<exists>m st'.
     toObject 3 (triggerAsync ''conversations:change'' (IdChange ''a'' ''b'')
         (with_cache (Some 0) example_object_world)) example_store =
       Inr (2, with_cache (Some 2) (example_object_world\<lparr>trace :=
              [RootTriggerAsync ''conversations:change'' (IdChange ''a'' ''b'')]\<rparr>), st')
     \<and> take 2 st' = example_store
     \<and> map_of (st' ! 2) ''metadata'' = Some m
     \<and> m \<noteq> JRef 1
     \<and> read_json 3 (st'[2 := []]) (JRef 1) = Some example_json"
proof -
  let ?w = "with_cache (Some 0) example_object_world"
  let ?w' = "triggerAsync ''conversations:change'' (IdChange ''a'' ''b'') ?w"
  have md: "metadata (self ?w) = JRef 1" "metadata (self ?w') = JRef 1"
    by (simp_all add: with_cache_def example_object_world_def triggerAsync_def
          clearObject_def call_def)
  have len: "length example_store = 2"
    by (simp add: example_store_def)
  have "read_json (Suc (Suc (Suc 0))) example_store (JRef 1) = Some example_json"
    by (simp add: example_store_def example_json_def)
  then have h: "read_json 3 example_store (metadata (self ?w)) = Some example_json
     \<and> (?w' = triggerAsync ''conversations:change'' (IdChange ''a'' ''b'') ?w
        \<or> ?w' = trigger ''conversations:change'' (IdChange ''a'' ''b'') ?w)"
    by (simp add: md numeral_3_eq_3)
  from toObject_cache_and_deep_copy
    [where fuel = 3 and st = example_store and w = ?w and w' = ?w' and t = example_json
       and n = "''conversations:change''" and args = "IdChange ''a'' ''b''"]
    h
  obtain m st' where
    run: "toObject 3 ?w' example_store =
        Inr (length example_store, with_cache (Some (length example_store)) ?w', st')"
    and old: "take (length example_store) st' = example_store"
    and pojo: "map_of (st' ! length example_store) ''metadata'' = Some m"
    and distinct: "\<forall>b. metadata (self ?w') = JRef b \<longrightarrow> m \<noteq> JRef b"
    and frame: "\<forall>b ps. length example_store \<le> b \<longrightarrow>
        read_json 3 (st'[b := ps]) (metadata (self ?w')) = Some example_json"
    by blast
  have w': "with_cache (Some 2) ?w' =
      with_cache (Some 2) (example_object_world\<lparr>trace :=
        [RootTriggerAsync ''conversations:change'' (IdChange ''a'' ''b'')]\<rparr>)"
    by (simp add: with_cache_def example_object_world_def triggerAsync_def clearObject_def
          call_def)
  have "m \<noteq> JRef 1"
    using distinct md by simp
  moreover have "read_json 3 (st'[2 := []]) (JRef 1) = Some example_json"
    using frame md len by simp
  ultimately show ?thesis
    using run old pojo len w' by auto
qed

end
